theory Spec2Isabelle
  imports Main "HOL-Library.Word"
begin

section \<open>Data model of the eviction core (rec\_evict.c)\<close>

text \<open>
  The tree is owned parent to child: a reference slot (\<open>WT_REF\<close>) holds the page it points
  to, a page holds the array of its child slots. A page carries its memory address
  (\<open>pg_id\<close>), so that the pointer comparisons of the source (\<open>page == last_page\<close>, the
  hazard lookup) are comparisons of addresses. A null pointer is \<open>None\<close>.
\<close>

datatype ref_state = WT_REF_DISK | WT_REF_LOCKED | WT_REF_MEM | WT_REF_READING

datatype page_type =
  WT_PAGE_COL_FIX | WT_PAGE_COL_INT | WT_PAGE_COL_VAR | WT_PAGE_ROW_INT | WT_PAGE_ROW_LEAF

text \<open>
  The flag words. The header that numbers the bits is not part of the source file; each
  name is one bit, so a flag word is the set of the names that are set.
\<close>

datatype page_flag =
  WT_PAGE_FORCE_EVICT | WT_PAGE_REC_EMPTY | WT_PAGE_REC_REPLACE | WT_PAGE_REC_SPLIT
  | WT_PAGE_REC_SPLIT_MERGE

datatype rec_flag = WT_REC_SINGLE | WT_REC_WAIT

datatype wt_ref =
  Ref (ref_state: ref_state) (ref_page: "wt_page option") (ref_addr: "32 word")
    (ref_size: "32 word")
and wt_page =
  Page (pg_id: nat) (pg_type: page_type) (pg_flags: "page_flag set")
    (pg_parent: "nat option") (pg_modify: "wt_modify option") (pg_read_gen: "64 word")
    (pg_refs: "wt_ref list")
and wt_modify =
  Modify (write_off_addr: "32 word") (write_off_size: "32 word")
    (write_split: "wt_page option")

text \<open>
  How a call ends: \<open>None\<close> is a call that never returns (the forced hazard wait, the
  root-split loop), \<open>Some (Inl f)\<close> a call that stops the process, \<open>Some (Inr x)\<close> a
  return.
\<close>

datatype fault = Assert_failed | Null_deref

type_synonym 'a exec = "(fault + 'a) option"

abbreviation Done :: "'a \<Rightarrow> 'a exec" where
  "Done x \<equiv> Some (Inr x)"

abbreviation Fault :: "fault \<Rightarrow> 'a exec" where
  "Fault f \<equiv> Some (Inl f)"

text \<open>
  The collaborators of the file, which are not in it, taken as parameters: the
  reconciler, the dirty predicate, the tracked-object discard, the hazard table as the
  readers leave it at each reading, and the values of the macros the file returns.
  \<open>diagnostic\<close> says whether the build has \<open>HAVE_DIAGNOSTIC\<close>, so whether \<open>WT_ASSERT\<close>
  stops the process on a false condition or is empty. \<open>WT_VERBOSE\<close> only prints and is
  left out.
\<close>

record env =
  diagnostic :: bool
  rec_write :: "wt_page \<Rightarrow> int \<times> wt_page"
  page_is_modified :: "wt_page \<Rightarrow> bool"
  page_set_modified :: "wt_page \<Rightarrow> int \<times> wt_page"
  rec_track_discard :: "wt_page \<Rightarrow> int"
  conn_hazard :: "nat \<Rightarrow> nat option list"
  wt_error :: int
  illegal_value :: int
  addr_invalid :: "32 word"

text \<open>
  \<open>page->parent_ref\<close> points either at \<open>btree->root_page\<close> or at a slot of the parent
  page; the session state holds both cells.
\<close>

datatype ref_ptr = Btree_root_page | Parent_slot

record session =
  root_page :: wt_ref
  parent_slot :: wt_ref
  cache_read_gen :: "64 word"
  hazard_reads :: nat
  cache_hazard :: "nat list"
  pages_out :: "nat list"
  stat_cache_evict_unmodified :: nat
  stat_cache_evict_modified :: nat
  stat_rec_hazard :: nat

definition get_ref :: "session \<Rightarrow> ref_ptr \<Rightarrow> wt_ref" where
  "get_ref s p = (case p of Btree_root_page \<Rightarrow> root_page s | Parent_slot \<Rightarrow> parent_slot s)"

definition put_ref :: "session \<Rightarrow> ref_ptr \<Rightarrow> wt_ref \<Rightarrow> session" where
  "put_ref s p r =
     (case p of Btree_root_page \<Rightarrow> s\<lparr>root_page := r\<rparr> | Parent_slot \<Rightarrow> s\<lparr>parent_slot := r\<rparr>)"

definition set_state :: "ref_state \<Rightarrow> wt_ref \<Rightarrow> wt_ref" where
  "set_state st r = Ref st (ref_page r) (ref_addr r) (ref_size r)"

definition set_page :: "wt_page option \<Rightarrow> wt_ref \<Rightarrow> wt_ref" where
  "set_page p r = Ref (ref_state r) p (ref_addr r) (ref_size r)"

definition set_refs :: "wt_ref list \<Rightarrow> wt_page \<Rightarrow> wt_page" where
  "set_refs rs p =
     Page (pg_id p) (pg_type p) (pg_flags p) (pg_parent p) (pg_modify p) (pg_read_gen p) rs"

definition set_flags :: "page_flag set \<Rightarrow> wt_page \<Rightarrow> wt_page" where
  "set_flags fl p =
     Page (pg_id p) (pg_type p) fl (pg_parent p) (pg_modify p) (pg_read_gen p) (pg_refs p)"

definition set_read_gen :: "64 word \<Rightarrow> wt_page \<Rightarrow> wt_page" where
  "set_read_gen g p =
     Page (pg_id p) (pg_type p) (pg_flags p) (pg_parent p) (pg_modify p) g (pg_refs p)"

definition WT_PAGE_REC_MASK :: "page_flag set" where
  "WT_PAGE_REC_MASK =
     {WT_PAGE_REC_EMPTY, WT_PAGE_REC_REPLACE, WT_PAGE_REC_SPLIT, WT_PAGE_REC_SPLIT_MERGE}"

definition F_ISSET :: "wt_page \<Rightarrow> page_flag set \<Rightarrow> page_flag set" where
  "F_ISSET p fs = pg_flags p \<inter> fs"

definition page_ptr :: "wt_page option \<Rightarrow> nat option" where
  "page_ptr p = map_option pg_id p"

text \<open>
  \<open>__wt_rec_write\<close> and \<open>__wt_page_set_modified\<close> change the page where it is:
  whatever the collaborator leaves in it, the page keeps its address.
\<close>

definition at_address :: "wt_page \<Rightarrow> wt_page \<Rightarrow> wt_page" where
  "at_address page page1 =
     Page (pg_id page) (pg_type page1) (pg_flags page1) (pg_parent page1) (pg_modify page1)
       (pg_read_gen page1) (pg_refs page1)"

definition wt_rec_write :: "env \<Rightarrow> wt_page \<Rightarrow> int \<times> wt_page" where
  "wt_rec_write E page = (fst (rec_write E page), at_address page (snd (rec_write E page)))"

definition wt_page_set_modified :: "env \<Rightarrow> wt_page \<Rightarrow> int \<times> wt_page" where
  "wt_page_set_modified E page =
     (fst (page_set_modified E page), at_address page (snd (page_set_modified E page)))"

section \<open>Hazard snapshot and exclusive access\<close>

text \<open>
  \<open>__hazard_copy\<close>: the non-null entries of the hazard table, sorted by address. Each
  call reads the table as the readers have left it by then.
\<close>

definition hazard_copy :: "env \<Rightarrow> session \<Rightarrow> session" where
  "hazard_copy E s =
     s\<lparr>cache_hazard := sort (List.map_filter id (conn_hazard E (hazard_reads s))),
       hazard_reads := Suc (hazard_reads s)\<rparr>"

text \<open>
  The search of the sorted snapshot for a page pointer: \<open>bsearch\<close> on a sorted array
  finds the key exactly when it is there.
\<close>

definition hazard_found :: "nat option \<Rightarrow> session \<Rightarrow> bool" where
  "hazard_found key s = (case key of None \<Rightarrow> False | Some a \<Rightarrow> a \<in> set (cache_hazard s))"

text \<open>The \<open>retry\<close> loop of \<open>__hazard_exclusive\<close>: 0 when the page is free, 1 when busy.\<close>

partial_function (option) hazard_retry ::
  "env \<Rightarrow> session \<Rightarrow> nat option \<Rightarrow> bool \<Rightarrow> (int \<times> session) option" where
  "hazard_retry E s key force =
     (let s1 = hazard_copy E s in
      if \<not> hazard_found key s1 then Some (0, s1)
      else let s2 = s1\<lparr>stat_rec_hazard := Suc (stat_rec_hazard s1)\<rparr> in
        if force then hazard_retry E s2 key force
        else Some (1, s2))"

declare hazard_retry.simps [code]

definition hazard_exclusive ::
  "env \<Rightarrow> session \<Rightarrow> wt_ref \<Rightarrow> bool \<Rightarrow> (int \<times> session \<times> wt_ref) exec" where
  "hazard_exclusive E s r force =
     (if diagnostic E \<and> ref_state r \<noteq> WT_REF_MEM \<and> ref_state r \<noteq> WT_REF_LOCKED
      then Fault Assert_failed
      else let r1 = set_state WT_REF_LOCKED r in
        case hazard_retry E s (page_ptr (ref_page r1)) force of
          None \<Rightarrow> None
        | Some (ret, s1) \<Rightarrow>
            if ret = 0 then Done (0, s1, r1)
            else Done (ret, s1, set_state WT_REF_MEM r1))"

section \<open>Subtree review\<close>

text \<open>
  \<open>__rec_sub_excl_page\<close>: the cheap test on the flags, the lock unless the caller has
  the tree to itself, then the careful test.
\<close>

definition rec_sub_excl_page ::
  "env \<Rightarrow> session \<Rightarrow> wt_ref \<Rightarrow> wt_page option \<Rightarrow> rec_flag set
     \<Rightarrow> (int \<times> session \<times> wt_ref) exec" where
  "rec_sub_excl_page E s r page flags =
     (case page of
        None \<Rightarrow> Fault Null_deref
      | Some p \<Rightarrow>
          if F_ISSET p {WT_PAGE_REC_EMPTY, WT_PAGE_REC_SPLIT, WT_PAGE_REC_SPLIT_MERGE} = {}
          then Done (1, s, r)
          else
            case (if WT_REC_SINGLE \<notin> flags
                  then hazard_exclusive E s r (WT_REC_WAIT \<in> flags)
                  else Done (0, s, r)) of
              None \<Rightarrow> None
            | Some (Inl f) \<Rightarrow> Fault f
            | Some (Inr (ret, s1, r1)) \<Rightarrow>
                if ret \<noteq> 0 then Done (ret, s1, r1)
                else if F_ISSET p {WT_PAGE_REC_SPLIT_MERGE} \<noteq> {} then Done (0, s1, r1)
                else if F_ISSET p {WT_PAGE_REC_SPLIT, WT_PAGE_REC_EMPTY} \<noteq> {}
                        \<and> \<not> page_is_modified E p then Done (0, s1, r1)
                else Done (1, s1, r1))"

text \<open>The rest of a loop over the slots, once the slot at hand is done.\<close>

definition excl_next ::
  "wt_ref \<Rightarrow> (int \<times> session \<times> wt_ref list \<times> nat option) exec
     \<Rightarrow> (int \<times> session \<times> wt_ref list \<times> nat option) exec" where
  "excl_next r x =
     (case x of
        None \<Rightarrow> None
      | Some (Inl f) \<Rightarrow> Fault f
      | Some (Inr (ret, s, rs, last_page)) \<Rightarrow> Done (ret, s, r # rs, last_page))"

lemma size_child_refs [termination_simp]:
  "ref_page r = Some p \<Longrightarrow> size_list size (pg_refs p) < Suc (size r + n)"
  by (cases r; cases p) simp

text \<open>
  \<open>__rec_sub_excl_col\<close> and \<open>__rec_sub_excl_row\<close> are the same walk, one over the slots
  of a column-store internal page and one over those of a row-store internal page; \<open>ty\<close>
  is the page type the walk recurses into. The walk gives back the slots as it leaves
  them and the last page it locked.
\<close>

fun rec_sub_excl ::
  "page_type \<Rightarrow> env \<Rightarrow> session \<Rightarrow> wt_ref list \<Rightarrow> nat option \<Rightarrow> rec_flag set
     \<Rightarrow> (int \<times> session \<times> wt_ref list \<times> nat option) exec" where
  "rec_sub_excl ty E s [] last_page flags = Done (0, s, [], last_page)"
| "rec_sub_excl ty E s (r # rs) last_page flags =
     (case ref_state r of
        WT_REF_DISK \<Rightarrow> excl_next r (rec_sub_excl ty E s rs last_page flags)
      | WT_REF_LOCKED \<Rightarrow> Done (wt_error E, s, r # rs, last_page)
      | WT_REF_READING \<Rightarrow> Done (wt_error E, s, r # rs, last_page)
      | WT_REF_MEM \<Rightarrow>
          (case rec_sub_excl_page E s r (ref_page r) flags of
             None \<Rightarrow> None
           | Some (Inl f) \<Rightarrow> Fault f
           | Some (Inr (ret, s1, r1)) \<Rightarrow>
               if ret \<noteq> 0 then Done (ret, s1, r1 # rs, last_page)
               else
                 (case ref_page r of
                    None \<Rightarrow> Fault Null_deref
                  | Some p \<Rightarrow>
                      if pg_type p = ty then
                        (case rec_sub_excl ty E s1 (pg_refs p) (Some (pg_id p)) flags of
                           None \<Rightarrow> None
                         | Some (Inl f) \<Rightarrow> Fault f
                         | Some (Inr (ret2, s2, cs, last_page2)) \<Rightarrow>
                             if ret2 \<noteq> 0
                             then Done (ret2, s2, set_page (Some (set_refs cs p)) r1 # rs, last_page2)
                             else excl_next (set_page (Some (set_refs cs p)) r1)
                                    (rec_sub_excl ty E s2 rs last_page2 flags))
                      else excl_next r1 (rec_sub_excl ty E s1 rs (Some (pg_id p)) flags))))"

definition rec_sub_excl_col ::
  "env \<Rightarrow> session \<Rightarrow> wt_page \<Rightarrow> nat option \<Rightarrow> rec_flag set
     \<Rightarrow> (int \<times> session \<times> wt_ref list \<times> nat option) exec" where
  "rec_sub_excl_col E s parent last_page flags =
     rec_sub_excl WT_PAGE_COL_INT E s (pg_refs parent) last_page flags"

definition rec_sub_excl_row ::
  "env \<Rightarrow> session \<Rightarrow> wt_page \<Rightarrow> nat option \<Rightarrow> rec_flag set
     \<Rightarrow> (int \<times> session \<times> wt_ref list \<times> nat option) exec" where
  "rec_sub_excl_row E s parent last_page flags =
     rec_sub_excl WT_PAGE_ROW_INT E s (pg_refs parent) last_page flags"

section \<open>Subtree unlock\<close>

definition clear_next :: "wt_ref \<Rightarrow> (int \<times> wt_ref list) exec \<Rightarrow> (int \<times> wt_ref list) exec" where
  "clear_next r x =
     (case x of
        None \<Rightarrow> None
      | Some (Inl f) \<Rightarrow> Fault f
      | Some (Inr (ret, rs)) \<Rightarrow> Done (ret, r # rs))"

text \<open>
  \<open>__rec_sub_excl_col_clear\<close> and \<open>__rec_sub_excl_row_clear\<close>, again one walk for both
  page types: every slot is asserted LOCKED and set to MEM, the walk stops with 1 at the
  slot whose page pointer is \<open>last_page\<close>.
\<close>

fun rec_sub_excl_clear_walk ::
  "page_type \<Rightarrow> env \<Rightarrow> wt_ref list \<Rightarrow> nat option \<Rightarrow> (int \<times> wt_ref list) exec" where
  "rec_sub_excl_clear_walk ty E [] last_page = Done (0, [])"
| "rec_sub_excl_clear_walk ty E (r # rs) last_page =
     (if diagnostic E \<and> ref_state r \<noteq> WT_REF_LOCKED then Fault Assert_failed
      else
        if page_ptr (ref_page r) = last_page
        then Done (1, set_state WT_REF_MEM r # rs)
        else
          (case ref_page r of
             None \<Rightarrow> Fault Null_deref
           | Some p \<Rightarrow>
               if pg_type p = ty then
                 (case rec_sub_excl_clear_walk ty E (pg_refs p) last_page of
                    None \<Rightarrow> None
                  | Some (Inl f) \<Rightarrow> Fault f
                  | Some (Inr (ret, cs)) \<Rightarrow>
                      if ret \<noteq> 0
                      then Done (1, Ref WT_REF_MEM (Some (set_refs cs p)) (ref_addr r)
                                      (ref_size r) # rs)
                      else clear_next
                             (Ref WT_REF_MEM (Some (set_refs cs p)) (ref_addr r) (ref_size r))
                             (rec_sub_excl_clear_walk ty E rs last_page))
               else clear_next (set_state WT_REF_MEM r)
                      (rec_sub_excl_clear_walk ty E rs last_page)))"

definition rec_sub_excl_col_clear ::
  "env \<Rightarrow> wt_page \<Rightarrow> nat option \<Rightarrow> (int \<times> wt_ref list) exec" where
  "rec_sub_excl_col_clear E parent last_page =
     rec_sub_excl_clear_walk WT_PAGE_COL_INT E (pg_refs parent) last_page"

definition rec_sub_excl_row_clear ::
  "env \<Rightarrow> wt_page \<Rightarrow> nat option \<Rightarrow> (int \<times> wt_ref list) exec" where
  "rec_sub_excl_row_clear E parent last_page =
     rec_sub_excl_clear_walk WT_PAGE_ROW_INT E (pg_refs parent) last_page"

text \<open>
  \<open>__rec_sub_excl_clear\<close>. The page is the one held by the slot \<open>page->parent_ref\<close>
  points at; the slots the walk has reset are stored back into it.
\<close>

definition clear_store ::
  "session \<Rightarrow> ref_ptr \<Rightarrow> wt_ref \<Rightarrow> wt_page \<Rightarrow> (int \<times> wt_ref list) exec \<Rightarrow> session exec" where
  "clear_store s ptr r page x =
     (case x of
        None \<Rightarrow> None
      | Some (Inl f) \<Rightarrow> Fault f
      | Some (Inr (ret, cs)) \<Rightarrow> Done (put_ref s ptr (set_page (Some (set_refs cs page)) r)))"

definition rec_sub_excl_clear ::
  "env \<Rightarrow> session \<Rightarrow> ref_ptr \<Rightarrow> nat option \<Rightarrow> rec_flag set \<Rightarrow> session exec" where
  "rec_sub_excl_clear E s ptr last_page flags =
     (if WT_REC_SINGLE \<in> flags then Done s
      else
        case ref_page (get_ref s ptr) of
          None \<Rightarrow> Fault Null_deref
        | Some page \<Rightarrow>
            if diagnostic E \<and> ref_state (get_ref s ptr) \<noteq> WT_REF_LOCKED
            then Fault Assert_failed
            else
              let r1 = set_state WT_REF_MEM (get_ref s ptr) in
              if Some (pg_id page) = last_page then Done (put_ref s ptr r1)
              else
                (case pg_type page of
                   WT_PAGE_COL_INT \<Rightarrow>
                     clear_store s ptr r1 page (rec_sub_excl_col_clear E page last_page)
                 | WT_PAGE_ROW_INT \<Rightarrow>
                     clear_store s ptr r1 page (rec_sub_excl_row_clear E page last_page)
                 | _ \<Rightarrow> Done (put_ref s ptr r1)))"

text \<open>
  \<open>__rec_review\<close>. With \<open>WT_REC_SINGLE\<close> the source leaves \<open>last_page\<close> unset; it is
  then never read, and is \<open>None\<close> here.
\<close>

definition review_store ::
  "env \<Rightarrow> ref_ptr \<Rightarrow> wt_ref \<Rightarrow> wt_page \<Rightarrow> rec_flag set
     \<Rightarrow> (int \<times> session \<times> wt_ref list \<times> nat option) exec \<Rightarrow> (int \<times> session) exec" where
  "review_store E ptr r page flags x =
     (case x of
        None \<Rightarrow> None
      | Some (Inl f) \<Rightarrow> Fault f
      | Some (Inr (ret, s, cs, last_page)) \<Rightarrow>
          let s1 = put_ref s ptr (set_page (Some (set_refs cs page)) r) in
          if ret \<noteq> 0 then
            (case rec_sub_excl_clear E s1 ptr last_page flags of
               None \<Rightarrow> None
             | Some (Inl f) \<Rightarrow> Fault f
             | Some (Inr s2) \<Rightarrow> Done (ret, s2))
          else Done (ret, s1))"

definition review_walk ::
  "env \<Rightarrow> session \<Rightarrow> ref_ptr \<Rightarrow> wt_ref \<Rightarrow> wt_page \<Rightarrow> nat option \<Rightarrow> rec_flag set
     \<Rightarrow> (int \<times> session) exec" where
  "review_walk E s ptr r page last_page flags =
     (case pg_type page of
        WT_PAGE_COL_INT \<Rightarrow>
          review_store E ptr r page flags (rec_sub_excl_col E s page last_page flags)
      | WT_PAGE_ROW_INT \<Rightarrow>
          review_store E ptr r page flags (rec_sub_excl_row E s page last_page flags)
      | _ \<Rightarrow> Done (0, s))"

definition rec_review ::
  "env \<Rightarrow> session \<Rightarrow> ref_ptr \<Rightarrow> rec_flag set \<Rightarrow> (int \<times> session) exec" where
  "rec_review E s ptr flags =
     (case ref_page (get_ref s ptr) of
        None \<Rightarrow> Fault Null_deref
      | Some page \<Rightarrow>
          if WT_REC_SINGLE \<notin> flags then
            (case hazard_exclusive E s (get_ref s ptr) (WT_REC_WAIT \<in> flags) of
               None \<Rightarrow> None
             | Some (Inl f) \<Rightarrow> Fault f
             | Some (Inr (ret, s1, r1)) \<Rightarrow>
                 if ret \<noteq> 0 then Done (ret, put_ref s1 ptr r1)
                 else review_walk E (put_ref s1 ptr r1) ptr r1 page (Some (pg_id page)) flags)
          else review_walk E s ptr (get_ref s ptr) page None flags)"

section \<open>Discarding pages\<close>

text \<open>
  \<open>__rec_discard_page\<close>: the tracked objects are resolved when the page has a modify
  structure, then \<open>__wt_page_out\<close> frees the page; \<open>pages_out\<close> lists the freed pages.
\<close>

definition rec_discard_page :: "env \<Rightarrow> session \<Rightarrow> wt_page \<Rightarrow> int \<times> session" where
  "rec_discard_page E s page =
     (if pg_modify page \<noteq> None \<and> rec_track_discard E page \<noteq> 0
      then (rec_track_discard E page, s)
      else (0, s\<lparr>pages_out := pages_out s @ [pg_id page]\<rparr>))"

text \<open>
  Modelled from the spec: the macros \<open>WT_COL_REF_PAGE\<close> and \<open>WT_ROW_REF_PAGE\<close> are not in
  the source file. The spec's reference slot carries one page pointer, and the source
  takes \<open>&cref->ref\<close> and \<open>&rref->ref\<close> of both kinds of slot, so each macro reads the
  page pointer of the \<open>WT_REF\<close> inside the slot.
\<close>

definition WT_COL_REF_PAGE :: "wt_ref \<Rightarrow> wt_page option" where
  "WT_COL_REF_PAGE cref = ref_page cref"

definition WT_ROW_REF_PAGE :: "wt_ref \<Rightarrow> wt_page option" where
  "WT_ROW_REF_PAGE rref = ref_page rref"

lemma size_col_child [termination_simp]:
  "WT_COL_REF_PAGE r = Some p \<Longrightarrow> size_list size (pg_refs p) < Suc (size r + n)"
  by (cases r; cases p) (simp add: WT_COL_REF_PAGE_def)

lemma size_row_child [termination_simp]:
  "WT_ROW_REF_PAGE r = Some p \<Longrightarrow> size_list size (pg_refs p) < Suc (size r + n)"
  by (cases r; cases p) (simp add: WT_ROW_REF_PAGE_def)

text \<open>\<open>__rec_sub_discard_col\<close>, which reads the page of a column slot with the row macro.\<close>

fun rec_sub_discard_col :: "env \<Rightarrow> session \<Rightarrow> wt_ref list \<Rightarrow> (int \<times> session) exec" where
  "rec_sub_discard_col E s [] = Done (0, s)"
| "rec_sub_discard_col E s (cref # crefs) =
     (if ref_state cref \<noteq> WT_REF_DISK then
        (case WT_ROW_REF_PAGE cref of
           None \<Rightarrow> Fault Null_deref
         | Some page \<Rightarrow>
             (case (if pg_type page = WT_PAGE_COL_INT
                    then rec_sub_discard_col E s (pg_refs page) else Done (0, s)) of
                None \<Rightarrow> None
              | Some (Inl f) \<Rightarrow> Fault f
              | Some (Inr (ret, s1)) \<Rightarrow>
                  if ret \<noteq> 0 then Done (ret, s1)
                  else
                    (case rec_discard_page E s1 page of
                       (ret2, s2) \<Rightarrow>
                         if ret2 \<noteq> 0 then Done (ret2, s2)
                         else rec_sub_discard_col E s2 crefs)))
      else rec_sub_discard_col E s crefs)"

text \<open>\<open>__rec_sub_discard_row\<close>.\<close>

fun rec_sub_discard_row :: "env \<Rightarrow> session \<Rightarrow> wt_ref list \<Rightarrow> (int \<times> session) exec" where
  "rec_sub_discard_row E s [] = Done (0, s)"
| "rec_sub_discard_row E s (rref # rrefs) =
     (if ref_state rref \<noteq> WT_REF_DISK then
        (case WT_ROW_REF_PAGE rref of
           None \<Rightarrow> Fault Null_deref
         | Some page \<Rightarrow>
             (case (if pg_type page = WT_PAGE_ROW_INT
                    then rec_sub_discard_row E s (pg_refs page) else Done (0, s)) of
                None \<Rightarrow> None
              | Some (Inl f) \<Rightarrow> Fault f
              | Some (Inr (ret, s1)) \<Rightarrow>
                  if ret \<noteq> 0 then Done (ret, s1)
                  else
                    (case rec_discard_page E s1 page of
                       (ret2, s2) \<Rightarrow>
                         if ret2 \<noteq> 0 then Done (ret2, s2)
                         else rec_sub_discard_row E s2 rrefs)))
      else rec_sub_discard_row E s rrefs)"

definition rec_sub_discard :: "env \<Rightarrow> session \<Rightarrow> wt_page \<Rightarrow> (int \<times> session) exec" where
  "rec_sub_discard E s page =
     (case pg_type page of
        WT_PAGE_COL_INT \<Rightarrow> rec_sub_discard_col E s (pg_refs page)
      | WT_PAGE_ROW_INT \<Rightarrow> rec_sub_discard_row E s (pg_refs page)
      | _ \<Rightarrow> Done (0, s))"

section \<open>Parent update\<close>

text \<open>
  Modelled from the spec: the macro \<open>WT_PAGE_IS_ROOT\<close> is not in the source file. The root
  is the page with no parent page.
\<close>

definition WT_PAGE_IS_ROOT :: "wt_page \<Rightarrow> bool" where
  "WT_PAGE_IS_ROOT page = (pg_parent page = None)"

text \<open>\<open>__rec_parent_clean_update\<close>.\<close>

definition rec_parent_clean_update ::
  "env \<Rightarrow> session \<Rightarrow> ref_ptr \<Rightarrow> wt_page \<Rightarrow> (int \<times> session) exec" where
  "rec_parent_clean_update E s ptr page =
     (let s1 = put_ref s ptr (set_page None (get_ref s ptr));
          s2 = put_ref s1 ptr (set_state WT_REF_DISK (get_ref s1 ptr))
      in Done (rec_discard_page E s2 page))"

text \<open>
  \<open>__rec_root_split\<close>: each new root is marked modified, written and discarded, until a
  write replaces the page by one on-disk image.
\<close>

partial_function (option) rec_root_split ::
  "env \<Rightarrow> session \<Rightarrow> wt_page option \<Rightarrow> (int \<times> session) exec" where
  "rec_root_split E s page =
     (case page of
        None \<Rightarrow> Done (0, s)
      | Some p \<Rightarrow>
          (case wt_page_set_modified E p of
             (ret, p1) \<Rightarrow>
               if ret \<noteq> 0 then Done (ret, s)
               else
                 (case wt_rec_write E (set_flags (pg_flags p1 - WT_PAGE_REC_MASK) p1) of
                    (ret2, p2) \<Rightarrow>
                      if ret2 \<noteq> 0 then Done (ret2, s)
                      else if F_ISSET p2 WT_PAGE_REC_MASK = {WT_PAGE_REC_REPLACE} then
                        (case pg_modify p2 of
                           None \<Rightarrow> Fault Null_deref
                         | Some m \<Rightarrow>
                             (case rec_discard_page E
                                     (s\<lparr>root_page :=
                                          Ref (ref_state (root_page s)) None
                                            (write_off_addr m) (write_off_size m)\<rparr>) p2 of
                                (ret3, s3) \<Rightarrow>
                                  if ret3 \<noteq> 0 then Done (ret3, s3)
                                  else rec_root_split E s3 None))
                      else if F_ISSET p2 WT_PAGE_REC_MASK = {WT_PAGE_REC_SPLIT} then
                        (case pg_modify p2 of
                           None \<Rightarrow> Fault Null_deref
                         | Some m \<Rightarrow>
                             (case rec_discard_page E s p2 of
                                (ret3, s3) \<Rightarrow>
                                  if ret3 \<noteq> 0 then Done (ret3, s3)
                                  else rec_root_split E s3 (write_split m)))
                      else Done (illegal_value E, s))))"

declare rec_root_split.simps [code]

text \<open>
  The tail of \<open>__rec_parent_dirty_update\<close>: the pages merged into the page are discarded,
  then the page.
\<close>

definition dirty_discard :: "env \<Rightarrow> session \<Rightarrow> wt_page \<Rightarrow> (int \<times> session) exec" where
  "dirty_discard E s page =
     (case rec_sub_discard E s page of
        None \<Rightarrow> None
      | Some (Inl f) \<Rightarrow> Fault f
      | Some (Inr (ret, s1)) \<Rightarrow>
          if ret \<noteq> 0 then Done (ret, s1) else Done (rec_discard_page E s1 page))"

text \<open>\<open>__rec_parent_dirty_update\<close>.\<close>

definition rec_parent_dirty_update ::
  "env \<Rightarrow> session \<Rightarrow> ref_ptr \<Rightarrow> wt_page \<Rightarrow> rec_flag set \<Rightarrow> (int \<times> session) exec" where
  "rec_parent_dirty_update E s ptr page flags =
     (let parent_ref = get_ref s ptr in
      if F_ISSET page WT_PAGE_REC_MASK = {WT_PAGE_REC_EMPTY} then
        if WT_PAGE_IS_ROOT page then
          dirty_discard E
            (put_ref s ptr (Ref WT_REF_DISK None (addr_invalid E) (ref_size parent_ref))) page
        else
          (case rec_sub_excl_clear E s ptr None flags of
             None \<Rightarrow> None
           | Some (Inl f) \<Rightarrow> Fault f
           | Some (Inr s1) \<Rightarrow> Done (0, s1))
      else if F_ISSET page WT_PAGE_REC_MASK = {WT_PAGE_REC_REPLACE} then
        (case pg_modify page of
           None \<Rightarrow> Fault Null_deref
         | Some m \<Rightarrow>
             dirty_discard E
               (put_ref s ptr (Ref WT_REF_DISK None (write_off_addr m) (write_off_size m)))
               page)
      else if F_ISSET page WT_PAGE_REC_MASK = {WT_PAGE_REC_SPLIT} then
        (case pg_modify page of
           None \<Rightarrow> Fault Null_deref
         | Some m \<Rightarrow>
             if WT_PAGE_IS_ROOT page then
               (case rec_root_split E s (write_split m) of
                  None \<Rightarrow> None
                | Some (Inl f) \<Rightarrow> Fault f
                | Some (Inr (ret, s1)) \<Rightarrow>
                    if ret \<noteq> 0 then Done (ret, s1)
                    else dirty_discard E
                           (put_ref s1 ptr (set_state WT_REF_DISK (get_ref s1 ptr))) page)
             else
               dirty_discard E
                 (put_ref s ptr
                    (Ref WT_REF_MEM (write_split m) (ref_addr parent_ref) (ref_size parent_ref)))
                 page)
      else Done (illegal_value E, s))"

section \<open>The eviction driver\<close>

text \<open>
  Modelled from the spec: \<open>__wt_evict_force_clear\<close> and \<open>__wt_cache_read_gen\<close> are not in
  the source file. The first clears the force-evict marker of the page, the second
  returns the current read generation of the cache.
\<close>

definition evict_force_clear :: "wt_page \<Rightarrow> wt_page" where
  "evict_force_clear page = set_flags (pg_flags page - {WT_PAGE_FORCE_EVICT}) page"

definition wt_cache_read_gen :: "session \<Rightarrow> 64 word" where
  "wt_cache_read_gen s = cache_read_gen s"

text \<open>
  The forced eviction of \<open>__wt_rec_evict\<close>: a page flagged FORCE\_EVICT is waited for,
  and its marker is cleared.
\<close>

definition evict_flags :: "wt_page \<Rightarrow> rec_flag set \<Rightarrow> rec_flag set" where
  "evict_flags page flags =
     (if F_ISSET page {WT_PAGE_FORCE_EVICT} \<noteq> {} then flags \<union> {WT_REC_WAIT} else flags)"

definition evict_force :: "session \<Rightarrow> ref_ptr \<Rightarrow> wt_page \<Rightarrow> session" where
  "evict_force s ptr page =
     (if F_ISSET page {WT_PAGE_FORCE_EVICT} \<noteq> {}
      then put_ref s ptr (set_page (Some (evict_force_clear page)) (get_ref s ptr))
      else s)"

text \<open>The \<open>err\<close> label of \<open>__wt_rec_evict\<close>.\<close>

definition evict_err ::
  "env \<Rightarrow> session \<Rightarrow> ref_ptr \<Rightarrow> rec_flag set \<Rightarrow> int \<Rightarrow> (int \<times> session) exec" where
  "evict_err E s ptr flags ret =
     (case rec_sub_excl_clear E s ptr None flags of
        None \<Rightarrow> None
      | Some (Inl f) \<Rightarrow> Fault f
      | Some (Inr s1) \<Rightarrow> Done (ret, s1))"

text \<open>What \<open>__wt_rec_evict\<close> does once the review has succeeded.\<close>

definition evict_update ::
  "env \<Rightarrow> session \<Rightarrow> ref_ptr \<Rightarrow> wt_page \<Rightarrow> rec_flag set \<Rightarrow> (int \<times> session) exec" where
  "evict_update E s ptr page flags =
     (if F_ISSET page WT_PAGE_REC_MASK = {} then
        rec_parent_clean_update E
          (s\<lparr>stat_cache_evict_unmodified := Suc (stat_cache_evict_unmodified s)\<rparr>) ptr page
      else
        rec_parent_dirty_update E
          (s\<lparr>stat_cache_evict_modified := Suc (stat_cache_evict_modified s)\<rparr>) ptr page flags)"

definition evict_write ::
  "env \<Rightarrow> session \<Rightarrow> ref_ptr \<Rightarrow> rec_flag set \<Rightarrow> (int \<times> session) exec" where
  "evict_write E s ptr flags =
     (case ref_page (get_ref s ptr) of
        None \<Rightarrow> Fault Null_deref
      | Some page \<Rightarrow>
          if page_is_modified E page then
            (case wt_rec_write E page of
               (ret, page1) \<Rightarrow>
                 let s1 = put_ref s ptr (set_page (Some page1) (get_ref s ptr)) in
                 if ret \<noteq> 0 then evict_err E s1 ptr flags ret
                 else evict_update E s1 ptr page1 flags)
          else evict_update E s ptr page flags)"

text \<open>
  \<open>__wt_rec_evict\<close>. The page is the one held by the slot \<open>ptr\<close>, which is what
  \<open>page->parent_ref\<close> points at.
\<close>

definition wt_rec_evict ::
  "env \<Rightarrow> session \<Rightarrow> ref_ptr \<Rightarrow> rec_flag set \<Rightarrow> (int \<times> session) exec" where
  "wt_rec_evict E s ptr flags =
     (case ref_page (get_ref s ptr) of
        None \<Rightarrow> Fault Null_deref
      | Some page \<Rightarrow>
          if F_ISSET page {WT_PAGE_REC_SPLIT_MERGE} \<noteq> {} then
            Done (0, put_ref s ptr
                       (Ref WT_REF_MEM (Some (set_read_gen (wt_cache_read_gen s) page))
                          (ref_addr (get_ref s ptr)) (ref_size (get_ref s ptr))))
          else
            (case rec_review E (evict_force s ptr page) ptr (evict_flags page flags) of
               None \<Rightarrow> None
             | Some (Inl f) \<Rightarrow> Fault f
             | Some (Inr (ret, s2)) \<Rightarrow>
                 if ret \<noteq> 0 then Done (ret, s2)
                 else evict_write E s2 ptr (evict_flags page flags)))"

section \<open>Notions used by the statements\<close>

text \<open>
  \<open>hazard_held E n key\<close>: at its \<open>n\<close>-th reading the hazard table holds the page pointer
  \<open>key\<close>. \<open>hazard_bump\<close> is the statistics update of a failed hazard request.
\<close>

definition hazard_held :: "env \<Rightarrow> nat \<Rightarrow> nat option \<Rightarrow> bool" where
  "hazard_held E n key = (key \<noteq> None \<and> key \<in> set (conn_hazard E n))"

definition hazard_bump :: "session \<Rightarrow> session" where
  "hazard_bump s = s\<lparr>stat_rec_hazard := Suc (stat_rec_hazard s)\<rparr>"


text \<open>
  The root-split chain. \<open>root_written E p\<close> is the page as \<open>__rec_root_split\<close> has
  written it (marked modified, its REC flags cleared, reconciled); \<open>root_step_ok\<close> says
  that marking, writing and discarding it all return 0. \<open>split_chain E ps a sz\<close>: every
  page of \<open>ps\<close> but the last reconciles to a split whose new page is the next of the list,
  and the last reconciles to a replacement at address \<open>a\<close> of size \<open>sz\<close>.
\<close>

definition root_written :: "env \<Rightarrow> wt_page \<Rightarrow> wt_page" where
  "root_written E p =
     snd (wt_rec_write E
            (set_flags (pg_flags (snd (wt_page_set_modified E p)) - WT_PAGE_REC_MASK)
               (snd (wt_page_set_modified E p))))"

definition root_step_ok :: "env \<Rightarrow> wt_page \<Rightarrow> bool" where
  "root_step_ok E p =
     (fst (wt_page_set_modified E p) = 0
      \<and> fst (wt_rec_write E
                (set_flags (pg_flags (snd (wt_page_set_modified E p)) - WT_PAGE_REC_MASK)
                   (snd (wt_page_set_modified E p)))) = 0
      \<and> rec_track_discard E (root_written E p) = 0)"

fun split_chain :: "env \<Rightarrow> wt_page list \<Rightarrow> 32 word \<Rightarrow> 32 word \<Rightarrow> bool" where
  "split_chain E [] a sz = False"
| "split_chain E [p] a sz =
     (root_step_ok E p
      \<and> F_ISSET (root_written E p) WT_PAGE_REC_MASK = {WT_PAGE_REC_REPLACE}
      \<and> (case pg_modify (root_written E p) of
            None \<Rightarrow> False
          | Some m \<Rightarrow> write_off_addr m = a \<and> write_off_size m = sz))"
| "split_chain E (p # q # ps) a sz =
     (root_step_ok E p
      \<and> F_ISSET (root_written E p) WT_PAGE_REC_MASK = {WT_PAGE_REC_SPLIT}
      \<and> (case pg_modify (root_written E p) of
            None \<Rightarrow> False
          | Some m \<Rightarrow> write_split m = Some q)
      \<and> split_chain E (q # ps) a sz)"


text \<open>
  The column discard walk as it would read with the column macro, to compare with the
  walk of the source, which uses the row macro.
\<close>

fun rec_sub_discard_col_spec :: "env \<Rightarrow> session \<Rightarrow> wt_ref list \<Rightarrow> (int \<times> session) exec" where
  "rec_sub_discard_col_spec E s [] = Done (0, s)"
| "rec_sub_discard_col_spec E s (cref # crefs) =
     (if ref_state cref \<noteq> WT_REF_DISK then
        (case WT_COL_REF_PAGE cref of
           None \<Rightarrow> Fault Null_deref
         | Some page \<Rightarrow>
             (case (if pg_type page = WT_PAGE_COL_INT
                    then rec_sub_discard_col_spec E s (pg_refs page) else Done (0, s)) of
                None \<Rightarrow> None
              | Some (Inl f) \<Rightarrow> Fault f
              | Some (Inr (ret, s1)) \<Rightarrow>
                  if ret \<noteq> 0 then Done (ret, s1)
                  else
                    (case rec_discard_page E s1 page of
                       (ret2, s2) \<Rightarrow>
                         if ret2 \<noteq> 0 then Done (ret2, s2)
                         else rec_sub_discard_col_spec E s2 crefs)))
      else rec_sub_discard_col_spec E s crefs)"


text \<open>
  A column-store tree read as a row-store tree: the two internal page types are swapped,
  everything else stays. \<open>mirror_env\<close> lets the tracked-object discard answer for the
  mirrored page what it answers for the page.
\<close>

definition mirror_type :: "page_type \<Rightarrow> page_type" where
  "mirror_type ty =
     (case ty of WT_PAGE_COL_INT \<Rightarrow> WT_PAGE_ROW_INT | WT_PAGE_ROW_INT \<Rightarrow> WT_PAGE_COL_INT
      | _ \<Rightarrow> ty)"

primrec mirror_ref :: "wt_ref \<Rightarrow> wt_ref" and mirror_page :: "wt_page \<Rightarrow> wt_page" where
  "mirror_ref (Ref st pg a sz) = Ref st (map_option mirror_page pg) a sz"
| "mirror_page (Page i ty fl par m g rs) = Page i (mirror_type ty) fl par m g (map mirror_ref rs)"

definition mirror_env :: "env \<Rightarrow> env" where
  "mirror_env E = E\<lparr>rec_track_discard := (\<lambda>p. rec_track_discard E (mirror_page p))\<rparr>"

text \<open>
  What a call may change. \<open>hazard_only s s'\<close>: at most the hazard snapshot, the number of
  readings and the hazard statistic differ. \<open>cell_step ptr s s'\<close>: besides those, at most
  the slot \<open>ptr\<close> differs, and it keeps its address, its size and the address of its
  page. \<open>freed ids s\<close> is \<open>s\<close> after the pages \<open>ids\<close> have been freed.
\<close>

definition hazard_only :: "session \<Rightarrow> session \<Rightarrow> bool" where
  "hazard_only s s' =
     (root_page s' = root_page s \<and> parent_slot s' = parent_slot s
      \<and> cache_read_gen s' = cache_read_gen s \<and> pages_out s' = pages_out s
      \<and> stat_cache_evict_unmodified s' = stat_cache_evict_unmodified s
      \<and> stat_cache_evict_modified s' = stat_cache_evict_modified s)"

definition cell_step :: "ref_ptr \<Rightarrow> session \<Rightarrow> session \<Rightarrow> bool" where
  "cell_step ptr s s' =
     (pages_out s' = pages_out s \<and> cache_read_gen s' = cache_read_gen s
      \<and> stat_cache_evict_unmodified s' = stat_cache_evict_unmodified s
      \<and> stat_cache_evict_modified s' = stat_cache_evict_modified s
      \<and> (\<forall>q. q \<noteq> ptr \<longrightarrow> get_ref s' q = get_ref s q)
      \<and> ref_addr (get_ref s' ptr) = ref_addr (get_ref s ptr)
      \<and> ref_size (get_ref s' ptr) = ref_size (get_ref s ptr)
      \<and> page_ptr (ref_page (get_ref s' ptr)) = page_ptr (ref_page (get_ref s ptr)))"

definition freed :: "nat list \<Rightarrow> session \<Rightarrow> session" where
  "freed ids s = s\<lparr>pages_out := pages_out s @ ids\<rparr>"


text \<open>
  \<open>merged ty rs\<close>: the pages the discard walk over the slots \<open>rs\<close> frees when every discard
  succeeds, in order: below each slot that is not on disk, the merged pages of the child
  (when it is an internal page of the walk's type), then the child.
\<close>

fun merged :: "page_type \<Rightarrow> wt_ref list \<Rightarrow> nat list" where
  "merged ty [] = []"
| "merged ty (r # rs) =
     (if ref_state r \<noteq> WT_REF_DISK then
        (case ref_page r of
           None \<Rightarrow> []
         | Some p \<Rightarrow> (if pg_type p = ty then merged ty (pg_refs p) else []) @ [pg_id p])
      else []) @ merged ty rs"

definition merged_pages :: "wt_page \<Rightarrow> nat list" where
  "merged_pages page =
     (case pg_type page of
        WT_PAGE_COL_INT \<Rightarrow> merged WT_PAGE_COL_INT (pg_refs page)
      | WT_PAGE_ROW_INT \<Rightarrow> merged WT_PAGE_ROW_INT (pg_refs page)
      | _ \<Rightarrow> [])"


text \<open>
  \<open>locked_region ty rs\<close>: every slot the unlock walk meets from \<open>rs\<close> is LOCKED and
  points to a page, which is what the walk asserts. \<open>release ty rs\<close>: the same slots,
  each set to MEM.
\<close>

fun locked_region :: "page_type \<Rightarrow> wt_ref list \<Rightarrow> bool" where
  "locked_region ty [] = True"
| "locked_region ty (r # rs) =
     (ref_state r = WT_REF_LOCKED
      \<and> (case ref_page r of
            None \<Rightarrow> False
          | Some p \<Rightarrow> if pg_type p = ty then locked_region ty (pg_refs p) else True)
      \<and> locked_region ty rs)"

fun release :: "page_type \<Rightarrow> wt_ref list \<Rightarrow> wt_ref list" where
  "release ty [] = []"
| "release ty (r # rs) =
     (case ref_page r of
        None \<Rightarrow> set_state WT_REF_MEM r
      | Some p \<Rightarrow>
          Ref WT_REF_MEM
            (Some (if pg_type p = ty then set_refs (release ty (pg_refs p)) p else p))
            (ref_addr r) (ref_size r))
     # release ty rs"

definition locked_below :: "wt_page \<Rightarrow> bool" where
  "locked_below page =
     (case pg_type page of
        WT_PAGE_COL_INT \<Rightarrow> locked_region WT_PAGE_COL_INT (pg_refs page)
      | WT_PAGE_ROW_INT \<Rightarrow> locked_region WT_PAGE_ROW_INT (pg_refs page)
      | _ \<Rightarrow> True)"

definition release_below :: "wt_page \<Rightarrow> wt_page" where
  "release_below page =
     (case pg_type page of
        WT_PAGE_COL_INT \<Rightarrow> set_refs (release WT_PAGE_COL_INT (pg_refs page)) page
      | WT_PAGE_ROW_INT \<Rightarrow> set_refs (release WT_PAGE_ROW_INT (pg_refs page)) page
      | _ \<Rightarrow> page)"


text \<open>
  The discard walk of either page type, \<open>ty\<close> being the type it recurses into.
\<close>

fun rec_sub_discard_walk ::
  "page_type \<Rightarrow> env \<Rightarrow> session \<Rightarrow> wt_ref list \<Rightarrow> (int \<times> session) exec" where
  "rec_sub_discard_walk ty E s [] = Done (0, s)"
| "rec_sub_discard_walk ty E s (r # rs) =
     (if ref_state r \<noteq> WT_REF_DISK then
        (case ref_page r of
           None \<Rightarrow> Fault Null_deref
         | Some page \<Rightarrow>
             (case (if pg_type page = ty
                    then rec_sub_discard_walk ty E s (pg_refs page) else Done (0, s)) of
                None \<Rightarrow> None
              | Some (Inl f) \<Rightarrow> Fault f
              | Some (Inr (ret, s1)) \<Rightarrow>
                  if ret \<noteq> 0 then Done (ret, s1)
                  else
                    (case rec_discard_page E s1 page of
                       (ret2, s2) \<Rightarrow>
                         if ret2 \<noteq> 0 then Done (ret2, s2)
                         else rec_sub_discard_walk ty E s2 rs)))
      else rec_sub_discard_walk ty E s rs)"


text \<open>
  The discards of the dirty parent update, in the order the code tries them:
  \<open>discard_order page\<close> lists the pages merged into \<open>page\<close>, as the discard walk meets
  them, then \<open>page\<close> itself. \<open>discard_ret E ps\<close> is what the tracked-object discard
  returns on the first page of \<open>ps\<close> on which it fails, the page having a modify
  structure, and 0 when there is none; \<open>discard_done E ps\<close> lists the pages before that
  one, which are the pages freed.
\<close>

fun merged_list :: "page_type \<Rightarrow> wt_ref list \<Rightarrow> wt_page list" where
  "merged_list ty [] = []"
| "merged_list ty (r # rs) =
     (if ref_state r \<noteq> WT_REF_DISK then
        (case ref_page r of
           None \<Rightarrow> []
         | Some p \<Rightarrow> (if pg_type p = ty then merged_list ty (pg_refs p) else []) @ [p])
      else []) @ merged_list ty rs"

definition discard_order :: "wt_page \<Rightarrow> wt_page list" where
  "discard_order page =
     (case pg_type page of
        WT_PAGE_COL_INT \<Rightarrow> merged_list WT_PAGE_COL_INT (pg_refs page)
      | WT_PAGE_ROW_INT \<Rightarrow> merged_list WT_PAGE_ROW_INT (pg_refs page)
      | _ \<Rightarrow> []) @ [page]"

fun discard_ret :: "env \<Rightarrow> wt_page list \<Rightarrow> int" where
  "discard_ret E [] = 0"
| "discard_ret E (p # ps) =
     (if pg_modify p \<noteq> None \<and> rec_track_discard E p \<noteq> 0 then rec_track_discard E p
      else discard_ret E ps)"

fun discard_done :: "env \<Rightarrow> wt_page list \<Rightarrow> nat list" where
  "discard_done E [] = []"
| "discard_done E (p # ps) =
     (if pg_modify p \<noteq> None \<and> rec_track_discard E p \<noteq> 0 then []
      else pg_id p # discard_done E ps)"


text \<open>
  The optional write of \<open>__wt_rec_evict\<close>: what \<open>__wt_rec_write\<close> returns (0 when the
  page is clean and nothing is written), the page afterwards, and the session with that
  page in the slot.
\<close>

definition write_ret :: "env \<Rightarrow> wt_page \<Rightarrow> int" where
  "write_ret E page = (if page_is_modified E page then fst (rec_write E page) else 0)"

definition written_page :: "env \<Rightarrow> wt_page \<Rightarrow> wt_page" where
  "written_page E page = (if page_is_modified E page then snd (wt_rec_write E page) else page)"

definition written_session :: "env \<Rightarrow> session \<Rightarrow> ref_ptr \<Rightarrow> wt_page \<Rightarrow> session" where
  "written_session E s ptr page =
     (if page_is_modified E page
      then put_ref s ptr (set_page (Some (written_page E page)) (get_ref s ptr)) else s)"

section \<open>Concrete inputs\<close>

definition leaf7 :: wt_page where
  "leaf7 = Page 7 WT_PAGE_ROW_LEAF {WT_PAGE_REC_SPLIT} (Some 1) None 0 []"

definition plain8 :: wt_page where
  "plain8 = Page 8 WT_PAGE_ROW_LEAF {} (Some 1) None 0 []"

definition merge9 :: wt_page where
  "merge9 = Page 9 WT_PAGE_ROW_INT {WT_PAGE_REC_SPLIT_MERGE} (Some 1) None 0 []"

definition env0 :: env where
  "env0 = \<lparr>diagnostic = True, rec_write = (\<lambda>p. (0, p)), page_is_modified = (\<lambda>p. False),
     page_set_modified = (\<lambda>p. (0, p)), rec_track_discard = (\<lambda>p. 0),
     conn_hazard = (\<lambda>n. if n < 2 then [None, Some 7] else [None, None]),
     wt_error = 2, illegal_value = 3, addr_invalid = - 1\<rparr>"

definition session0 :: "wt_ref \<Rightarrow> session" where
  "session0 r = \<lparr>root_page = Ref WT_REF_DISK None 0 0, parent_slot = r, cache_read_gen = 5,
     hazard_reads = 0, cache_hazard = [], pages_out = [], stat_cache_evict_unmodified = 0,
     stat_cache_evict_modified = 0, stat_rec_hazard = 0\<rparr>"


text \<open>
  A row-store internal page whose only child is in memory, flagged REC\_SPLIT, and dirty
  under \<open>env_dirty_child\<close>; \<open>env_quiet\<close> has no reader in the hazard table.
\<close>

definition split2 :: wt_page where
  "split2 = Page 2 WT_PAGE_ROW_LEAF {WT_PAGE_REC_SPLIT} (Some 1) None 0 []"

definition parent_of_split :: "ref_state \<Rightarrow> wt_page" where
  "parent_of_split st = Page 1 WT_PAGE_ROW_INT {} (Some 0) None 0 [Ref st (Some split2) 0 0]"

definition env_quiet :: env where
  "env_quiet = env0\<lparr>conn_hazard := (\<lambda>n. [])\<rparr>"

definition env_dirty_child :: env where
  "env_dirty_child = env_quiet\<lparr>page_is_modified := (\<lambda>p. pg_id p = 2)\<rparr>"

text \<open>
  A row-store internal page with an on-disk child, a clean REC\_SPLIT child and a child
  that cannot be merged.
\<close>

definition parent_disk_first :: wt_page where
  "parent_disk_first =
     Page 1 WT_PAGE_ROW_INT {} (Some 0) None 0
       [Ref WT_REF_DISK None 3 4, Ref WT_REF_MEM (Some split2) 0 0,
        Ref WT_REF_MEM (Some plain8) 0 0]"

text \<open>
  A root that split twice: page 11 reconciles to a split whose new page is page 12, page
  12 to one on-disk image at address 66 of size 4096.
\<close>

definition root12 :: wt_page where
  "root12 = Page 12 WT_PAGE_ROW_INT {} None None 0 []"

definition root11 :: wt_page where
  "root11 = Page 11 WT_PAGE_ROW_INT {} None None 0 []"

definition env_chain :: env where
  "env_chain = env_quiet\<lparr>rec_write :=
     (\<lambda>p. if pg_id p = 11
          then (0, Page 11 WT_PAGE_ROW_INT {WT_PAGE_REC_SPLIT} None
                     (Some (Modify 0 0 (Some root12))) 0 [])
          else (0, Page 12 WT_PAGE_ROW_INT {WT_PAGE_REC_REPLACE} None
                     (Some (Modify 66 4096 None)) 0 []))\<rparr>"

text \<open>
  An empty row-store internal page, root or not, whose only child is an empty leaf, both
  locked.
\<close>

definition empty2 :: wt_page where
  "empty2 = Page 2 WT_PAGE_ROW_LEAF {WT_PAGE_REC_EMPTY} (Some 1) None 0 []"

definition empty_parent :: "nat option \<Rightarrow> ref_state \<Rightarrow> wt_page" where
  "empty_parent par st =
     Page 1 WT_PAGE_ROW_INT {WT_PAGE_REC_EMPTY} par None 0 [Ref st (Some empty2) 0 0]"

text \<open>
  A clean leaf with a modify structure, and a tracked-object discard that fails with 5;
  a reconciler that fails with 5 on the dirty page 1.
\<close>

definition tracked8 :: wt_page where
  "tracked8 = Page 8 WT_PAGE_ROW_LEAF {} (Some 1) (Some (Modify 0 0 None)) 0 []"

definition env_discard_fails :: env where
  "env_discard_fails = env_quiet\<lparr>rec_track_discard := (\<lambda>p. 5)\<rparr>"

definition env_write_fails :: env where
  "env_write_fails =
     env_quiet\<lparr>page_is_modified := (\<lambda>p. pg_id p = 1), rec_write := (\<lambda>p. (5, p))\<rparr>"



text \<open>
  A reconciler that replaces the dirty page 1 by one on-disk image at address 66 of size
  4096, and a tracked-object discard that fails with 5 on page 1 only.
\<close>

definition env_replace_fails :: env where
  "env_replace_fails =
     env_quiet\<lparr>page_is_modified := (\<lambda>p. pg_id p = 1),
       rec_write :=
         (\<lambda>p. (0, Page 1 WT_PAGE_ROW_INT {WT_PAGE_REC_REPLACE} (Some 0)
                      (Some (Modify 66 4096 None)) 0 (pg_refs p))),
       rec_track_discard := (\<lambda>p. if pg_id p = 1 then 5 else 0)\<rparr>"

section \<open>Exclusive access\<close>

lemma set_compact_hazard: "set (List.map_filter id xs) = {a. Some a \<in> set xs}"
  by (induction xs) (auto simp: map_filter_simps split: option.splits)

lemma hazard_found_copy:
  "hazard_found key (hazard_copy E s) = hazard_held E (hazard_reads s) key"
  by (cases key) (simp_all add: hazard_found_def hazard_copy_def hazard_held_def set_compact_hazard)

lemma hazard_found_bump [simp]: "hazard_found key (hazard_bump s) = hazard_found key s"
  by (cases key) (simp_all add: hazard_found_def hazard_bump_def)

lemma hazard_reads_step [simp]:
  "hazard_reads (hazard_copy E s) = Suc (hazard_reads s)"
  "hazard_reads (hazard_bump s) = hazard_reads s"
  by (simp_all add: hazard_copy_def hazard_bump_def)

lemma hazard_retry_free:
  "\<not> hazard_held E (hazard_reads s) key \<Longrightarrow>
   hazard_retry E s key force = Some (0, hazard_copy E s)"
  by (subst hazard_retry.simps) (simp add: hazard_found_copy Let_def)

lemma hazard_retry_busy:
  "hazard_held E (hazard_reads s) key \<Longrightarrow>
   hazard_retry E s key False = Some (1, hazard_bump (hazard_copy E s))"
  by (subst hazard_retry.simps) (simp add: hazard_found_copy Let_def hazard_bump_def)

lemma hazard_retry_spin:
  "hazard_held E (hazard_reads s) key \<Longrightarrow>
   hazard_retry E s key True = hazard_retry E (hazard_bump (hazard_copy E s)) key True"
  by (subst hazard_retry.simps) (simp add: hazard_found_copy Let_def hazard_bump_def)

lemma hazard_retry_forced_returns:
  "\<not> hazard_held E (hazard_reads s + k) key \<Longrightarrow>
   \<exists>s'. hazard_retry E s key True = Some (0, s')"
proof (induction k arbitrary: s)
  case 0
  then show ?case by (simp add: hazard_retry_free)
next
  case (Suc k)
  show ?case
  proof (cases "hazard_held E (hazard_reads s) key")
    case False
    then show ?thesis by (simp add: hazard_retry_free)
  next
    case True
    have "\<not> hazard_held E (hazard_reads (hazard_bump (hazard_copy E s)) + k) key"
      using Suc.prems by simp
    from Suc.IH [OF this] show ?thesis by (simp add: hazard_retry_spin [OF True])
  qed
qed

lemma hazard_retry_forced_ok:
  assumes "hazard_retry E s key force = Some y"
  shows "force \<longrightarrow> fst y = 0 \<and> \<not> hazard_found key (snd y)"
  by (rule hazard_retry.raw_induct
        [where P = "\<lambda>E s key force y. force \<longrightarrow> fst y = 0 \<and> \<not> hazard_found key (snd y)",
         OF _ assms])
     (auto simp: Let_def split: if_splits)

lemma hazard_retry_forced_free:
  assumes "hazard_retry E s key force = Some y"
  shows "force \<longrightarrow> (\<exists>k. \<not> hazard_held E (hazard_reads s + k) key)"
proof (rule hazard_retry.raw_induct
        [where P = "\<lambda>E s key force y. force \<longrightarrow> (\<exists>k. \<not> hazard_held E (hazard_reads s + k) key)",
         OF _ assms])
  fix hr E s key force y
  assume ih: "\<And>E s key force y. hr E s key force = Some y \<Longrightarrow>
            force \<longrightarrow> (\<exists>k. \<not> hazard_held E (hazard_reads s + k) key)"
    and body: "(let s1 = hazard_copy E s in
                if \<not> hazard_found key s1 then Some (0, s1)
                else let s2 = s1\<lparr>stat_rec_hazard := Suc (stat_rec_hazard s1)\<rparr> in
                  if force then hr E s2 key force else Some (1, s2)) = Some y"
  show "force \<longrightarrow> (\<exists>k. \<not> hazard_held E (hazard_reads s + k) key)"
  proof (cases "hazard_found key (hazard_copy E s)")
    case False
    then have "\<not> hazard_held E (hazard_reads s + 0) key" by (simp add: hazard_found_copy)
    then show ?thesis by blast
  next
    case True
    show ?thesis
    proof
      assume force
      with body True ih obtain k where "\<not> hazard_held E (Suc (hazard_reads s) + k) key"
        by (fastforce simp: Let_def hazard_copy_def)
      then have "\<not> hazard_held E (hazard_reads s + Suc k) key" by simp
      then show "\<exists>k. \<not> hazard_held E (hazard_reads s + k) key" by blast
    qed
  qed
qed


text \<open>
  C3. For a reference slot in state MEM or LOCKED, \<open>__hazard_exclusive\<close> returns 0 with
  the slot LOCKED when the page is not in the fresh hazard snapshot; when the page is
  found and \<open>force\<close> is false it returns 1 with the slot back in MEM; with \<open>force\<close> true
  it never returns 1: it returns 0, slot LOCKED, at the first snapshot that does not hold
  the page, which it reaches as soon as some later reading of the table is free of the
  page, and it does not return while every reading holds the page.
\<close>

theorem hazard_exclusive_contract:
  assumes st: "ref_state r = WT_REF_MEM \<or> ref_state r = WT_REF_LOCKED"
  shows "(\<not> hazard_held E (hazard_reads s) (page_ptr (ref_page r)) \<longrightarrow>
            hazard_exclusive E s r force = Done (0, hazard_copy E s, set_state WT_REF_LOCKED r))
       \<and> (hazard_held E (hazard_reads s) (page_ptr (ref_page r)) \<longrightarrow>
            hazard_exclusive E s r False =
              Done (1, hazard_bump (hazard_copy E s), set_state WT_REF_MEM r))
       \<and> (\<forall>ret s' r'. hazard_exclusive E s r True = Done (ret, s', r') \<longrightarrow>
            ret = 0 \<and> r' = set_state WT_REF_LOCKED r
            \<and> \<not> hazard_found (page_ptr (ref_page r)) s')
       \<and> ((\<exists>k. \<not> hazard_held E (hazard_reads s + k) (page_ptr (ref_page r))) \<longrightarrow>
            (\<exists>s'. hazard_exclusive E s r True = Done (0, s', set_state WT_REF_LOCKED r)))
       \<and> ((\<forall>k. hazard_held E (hazard_reads s + k) (page_ptr (ref_page r))) \<longrightarrow>
            hazard_exclusive E s r True = None)"
proof (intro conjI impI allI)
  let ?key = "page_ptr (ref_page r)"
  have key: "page_ptr (ref_page (set_state WT_REF_LOCKED r)) = ?key"
    by (simp add: set_state_def)
  have noassert: "\<not> (diagnostic E \<and> ref_state r \<noteq> WT_REF_MEM \<and> ref_state r \<noteq> WT_REF_LOCKED)"
    using st by auto
  have unfold: "hazard_exclusive E s r f =
      (case hazard_retry E s ?key f of None \<Rightarrow> None
       | Some (ret, s1) \<Rightarrow>
           if ret = 0 then Done (0, s1, set_state WT_REF_LOCKED r)
           else Done (ret, s1, set_state WT_REF_MEM (set_state WT_REF_LOCKED r)))" for f
    using noassert by (simp add: hazard_exclusive_def Let_def key del: de_Morgan_conj)
  have mem: "set_state WT_REF_MEM (set_state WT_REF_LOCKED r) = set_state WT_REF_MEM r"
    by (simp add: set_state_def)
  {
    assume "\<not> hazard_held E (hazard_reads s) ?key"
    then show "hazard_exclusive E s r force = Done (0, hazard_copy E s, set_state WT_REF_LOCKED r)"
      by (simp add: unfold hazard_retry_free)
  next
    assume "hazard_held E (hazard_reads s) ?key"
    then show "hazard_exclusive E s r False =
        Done (1, hazard_bump (hazard_copy E s), set_state WT_REF_MEM r)"
      by (simp add: unfold hazard_retry_busy mem)
  next
    fix ret s' r'
    assume d: "hazard_exclusive E s r True = Done (ret, s', r')"
    then obtain y where y: "hazard_retry E s ?key True = Some y"
      by (auto simp: unfold split: option.splits)
    from hazard_retry_forced_ok [OF y] have "fst y = 0" "\<not> hazard_found ?key (snd y)" by simp_all
    with d y show "ret = 0" "r' = set_state WT_REF_LOCKED r" "\<not> hazard_found ?key s'"
      by (auto simp: unfold split: prod.splits)
  next
    assume "\<exists>k. \<not> hazard_held E (hazard_reads s + k) ?key"
    then obtain k where "\<not> hazard_held E (hazard_reads s + k) ?key" ..
    from hazard_retry_forced_returns [OF this] obtain s' where
      "hazard_retry E s ?key True = Some (0, s')" ..
    then show "\<exists>s'. hazard_exclusive E s r True = Done (0, s', set_state WT_REF_LOCKED r)"
      by (simp add: unfold)
  next
    assume all: "\<forall>k. hazard_held E (hazard_reads s + k) ?key"
    have "hazard_retry E s ?key True = None"
    proof (cases "hazard_retry E s ?key True")
      case (Some y)
      from hazard_retry_forced_free [OF Some] all show ?thesis by blast
    qed simp
    then show "hazard_exclusive E s r True = None" by (simp add: unfold)
  }
qed

theorem hazard_exclusive_contract_witness:
  "hazard_exclusive env0 (session0 (Ref WT_REF_MEM (Some leaf7) 1 2)) (Ref WT_REF_MEM (Some leaf7) 1 2) False
     = Done (1, hazard_bump (hazard_copy env0 (session0 (Ref WT_REF_MEM (Some leaf7) 1 2))),
             Ref WT_REF_MEM (Some leaf7) 1 2)
   \<and> (\<exists>s'. hazard_exclusive env0 (session0 (Ref WT_REF_MEM (Some leaf7) 1 2))
              (Ref WT_REF_MEM (Some leaf7) 1 2) True
            = Done (0, s', Ref WT_REF_LOCKED (Some leaf7) 1 2))
   \<and> hazard_exclusive env0 (session0 (Ref WT_REF_LOCKED (Some leaf7) 1 2)\<lparr>hazard_reads := 2\<rparr>)
        (Ref WT_REF_LOCKED (Some leaf7) 1 2) False
     = Done (0, hazard_copy env0 (session0 (Ref WT_REF_LOCKED (Some leaf7) 1 2)\<lparr>hazard_reads := 2\<rparr>),
             Ref WT_REF_LOCKED (Some leaf7) 1 2)"
proof -
  let ?r = "Ref WT_REF_MEM (Some leaf7) 1 2"
  let ?l = "Ref WT_REF_LOCKED (Some leaf7) 1 2"
  have st: "ref_state ?r = WT_REF_MEM \<or> ref_state ?r = WT_REF_LOCKED" by simp
  have sl: "ref_state ?l = WT_REF_MEM \<or> ref_state ?l = WT_REF_LOCKED" by simp
  have held: "hazard_held env0 (hazard_reads (session0 ?r)) (page_ptr (ref_page ?r))"
    by (simp add: hazard_held_def env0_def session0_def page_ptr_def leaf7_def)
  have free: "\<not> hazard_held env0 (hazard_reads (session0 ?r) + 2) (page_ptr (ref_page ?r))"
    by (simp add: hazard_held_def env0_def session0_def page_ptr_def leaf7_def)
  then have ex: "\<exists>k. \<not> hazard_held env0 (hazard_reads (session0 ?r) + k) (page_ptr (ref_page ?r))" ..
  have free2: "\<not> hazard_held env0 (hazard_reads (session0 ?l\<lparr>hazard_reads := 2\<rparr>)) (page_ptr (ref_page ?l))"
    by (simp add: hazard_held_def env0_def session0_def page_ptr_def leaf7_def)
  from hazard_exclusive_contract [OF st, of env0 "session0 ?r" False] held ex
    hazard_exclusive_contract [OF sl, of env0 "session0 ?l\<lparr>hazard_reads := 2\<rparr>" False] free2
  show ?thesis by (simp add: set_state_def)
qed


section \<open>The child test\<close>

text \<open>
  C4. \<open>__rec_sub_excl_page\<close> on an in-memory child: with none of REC\_EMPTY, REC\_SPLIT,
  REC\_SPLIT\_MERGE set it returns 1 and leaves session and slot as they were (no lock is
  taken); once the lock step has succeeded, a REC\_SPLIT\_MERGE child is accepted whether
  clean or dirty, and a REC\_SPLIT or REC\_EMPTY child is accepted exactly when the page is
  not modified.
\<close>

theorem rec_sub_excl_page_tests:
  "(F_ISSET p {WT_PAGE_REC_EMPTY, WT_PAGE_REC_SPLIT, WT_PAGE_REC_SPLIT_MERGE} = {} \<longrightarrow>
      rec_sub_excl_page E s r (Some p) flags = Done (1, s, r))
   \<and> ((if WT_REC_SINGLE \<notin> flags then hazard_exclusive E s r (WT_REC_WAIT \<in> flags)
         else Done (0, s, r)) = Done (0, s1, r1) \<longrightarrow>
        (WT_PAGE_REC_SPLIT_MERGE \<in> pg_flags p \<longrightarrow>
           rec_sub_excl_page E s r (Some p) flags = Done (0, s1, r1))
      \<and> (WT_PAGE_REC_SPLIT_MERGE \<notin> pg_flags p
           \<and> (WT_PAGE_REC_SPLIT \<in> pg_flags p \<or> WT_PAGE_REC_EMPTY \<in> pg_flags p) \<longrightarrow>
           rec_sub_excl_page E s r (Some p) flags =
             Done (if page_is_modified E p then 1 else 0, s1, r1)))"
  by (auto simp: rec_sub_excl_page_def F_ISSET_def)

theorem rec_sub_excl_page_tests_witness:
  "rec_sub_excl_page env0 (session0 (Ref WT_REF_DISK None 0 0))
      (Ref WT_REF_MEM (Some plain8) 1 2) (Some plain8) {}
     = Done (1, session0 (Ref WT_REF_DISK None 0 0), Ref WT_REF_MEM (Some plain8) 1 2)
   \<and> rec_sub_excl_page env0 (session0 (Ref WT_REF_DISK None 0 0))
      (Ref WT_REF_MEM (Some leaf7) 1 2) (Some leaf7) {WT_REC_SINGLE}
     = Done (0, session0 (Ref WT_REF_DISK None 0 0), Ref WT_REF_MEM (Some leaf7) 1 2)
   \<and> rec_sub_excl_page (env0\<lparr>page_is_modified := (\<lambda>p. True)\<rparr>)
      (session0 (Ref WT_REF_DISK None 0 0))
      (Ref WT_REF_MEM (Some leaf7) 1 2) (Some leaf7) {WT_REC_SINGLE}
     = Done (1, session0 (Ref WT_REF_DISK None 0 0), Ref WT_REF_MEM (Some leaf7) 1 2)
   \<and> rec_sub_excl_page (env0\<lparr>page_is_modified := (\<lambda>p. True)\<rparr>)
      (session0 (Ref WT_REF_DISK None 0 0))
      (Ref WT_REF_MEM (Some merge9) 1 2) (Some merge9) {WT_REC_SINGLE}
     = Done (0, session0 (Ref WT_REF_DISK None 0 0), Ref WT_REF_MEM (Some merge9) 1 2)"
  using rec_sub_excl_page_tests
          [of plain8 env0 "session0 (Ref WT_REF_DISK None 0 0)"
              "Ref WT_REF_MEM (Some plain8) 1 2" "{}"]
        rec_sub_excl_page_tests
          [of leaf7 env0 "session0 (Ref WT_REF_DISK None 0 0)"
              "Ref WT_REF_MEM (Some leaf7) 1 2" "{WT_REC_SINGLE}"
              "session0 (Ref WT_REF_DISK None 0 0)" "Ref WT_REF_MEM (Some leaf7) 1 2"]
        rec_sub_excl_page_tests
          [of leaf7 "env0\<lparr>page_is_modified := (\<lambda>p. True)\<rparr>"
              "session0 (Ref WT_REF_DISK None 0 0)"
              "Ref WT_REF_MEM (Some leaf7) 1 2" "{WT_REC_SINGLE}"
              "session0 (Ref WT_REF_DISK None 0 0)" "Ref WT_REF_MEM (Some leaf7) 1 2"]
        rec_sub_excl_page_tests
          [of merge9 "env0\<lparr>page_is_modified := (\<lambda>p. True)\<rparr>"
              "session0 (Ref WT_REF_DISK None 0 0)"
              "Ref WT_REF_MEM (Some merge9) 1 2" "{WT_REC_SINGLE}"
              "session0 (Ref WT_REF_DISK None 0 0)" "Ref WT_REF_MEM (Some merge9) 1 2"]
  by (simp add: F_ISSET_def plain8_def leaf7_def merge9_def env0_def)


section \<open>The eviction driver on a merge-split page\<close>

text \<open>
  C7. On a page flagged REC\_SPLIT\_MERGE, \<open>__wt_rec_evict\<close> returns 0, and the session
  afterwards is the session before but for the slot of the page: its state is MEM, and
  the read generation of its page is the cache's current one. Address and size of the
  slot and every other field of the page stay; no hazard snapshot is taken, nothing is
  written, nothing is discarded, no counter moves.
\<close>

theorem evict_split_merge_noop:
  assumes "get_ref s ptr = Ref st (Some (Page i ty fl par md rg rs)) a sz"
    and "WT_PAGE_REC_SPLIT_MERGE \<in> fl"
  shows "wt_rec_evict E s ptr flags =
           Done (0, case ptr of
                      Btree_root_page \<Rightarrow>
                        s\<lparr>root_page :=
                             Ref WT_REF_MEM (Some (Page i ty fl par md (cache_read_gen s) rs))
                               a sz\<rparr>
                    | Parent_slot \<Rightarrow>
                        s\<lparr>parent_slot :=
                             Ref WT_REF_MEM (Some (Page i ty fl par md (cache_read_gen s) rs))
                               a sz\<rparr>)"
  using assms
  by (cases ptr)
     (simp_all add: wt_rec_evict_def F_ISSET_def put_ref_def set_read_gen_def
        wt_cache_read_gen_def)

theorem evict_split_merge_noop_witness:
  "wt_rec_evict env0 (session0 (Ref WT_REF_LOCKED (Some merge9) 1 2)) Parent_slot {WT_REC_WAIT}
     = Done (0, session0
                  (Ref WT_REF_MEM
                     (Some (Page 9 WT_PAGE_ROW_INT {WT_PAGE_REC_SPLIT_MERGE} (Some 1) None 5 []))
                     1 2))
   \<and> cache_read_gen (session0 (Ref WT_REF_LOCKED (Some merge9) 1 2)) = 5
   \<and> pg_read_gen merge9 = 0"
proof -
  have "get_ref (session0 (Ref WT_REF_LOCKED (Some merge9) 1 2)) Parent_slot
          = Ref WT_REF_LOCKED
              (Some (Page 9 WT_PAGE_ROW_INT {WT_PAGE_REC_SPLIT_MERGE} (Some 1) None 0 [])) 1 2"
    by (simp add: get_ref_def session0_def merge9_def)
  moreover have "WT_PAGE_REC_SPLIT_MERGE \<in> {WT_PAGE_REC_SPLIT_MERGE}"
    by simp
  ultimately show ?thesis
    using evict_split_merge_noop
            [of "session0 (Ref WT_REF_LOCKED (Some merge9) 1 2)" Parent_slot WT_REF_LOCKED
                9 WT_PAGE_ROW_INT "{WT_PAGE_REC_SPLIT_MERGE}" "Some 1" None 0 "[]" 1 2
                env0 "{WT_REC_WAIT}"]
    by (simp add: session0_def merge9_def)
qed


section \<open>Locks left behind by a failed review\<close>

text \<open>
  C1, at a failing input. The page has one in-memory child, flagged REC\_SPLIT and dirty;
  no reader holds a hazard reference. \<open>__rec_sub_excl_page\<close> locks the child and then
  rejects it, so the walk returns before the child becomes \<open>last_page\<close>; the unlock
  stops at the page itself. \<open>__wt_rec_evict\<close> returns 1 and the child slot is still
  LOCKED.
\<close>

theorem evict_leaves_rejected_child_locked:
  "wt_rec_evict env_dirty_child (session0 (Ref WT_REF_MEM (Some (parent_of_split WT_REF_MEM)) 7 8))
     Parent_slot {}
   = Done (1, session0 (Ref WT_REF_MEM (Some (parent_of_split WT_REF_LOCKED)) 7 8)
                \<lparr>hazard_reads := 2\<rparr>)"
  by code_simp

text \<open>
  C2, at a failing input. The review skips the on-disk child, locks the REC\_SPLIT child
  and fails on the third child. The unlock walk does not skip the on-disk slot: it
  asserts that the slot is LOCKED, sets it to MEM and reads the type of its page, which
  is null. With diagnostics the assertion stops the process, without them the null
  pointer does; the review never returns.
\<close>

theorem review_unlock_trips_on_disk_child:
  "rec_review (env_quiet\<lparr>diagnostic := False\<rparr>)
     (session0 (Ref WT_REF_MEM (Some parent_disk_first) 7 8)) Parent_slot {}
   = Fault Null_deref
   \<and> rec_review env_quiet (session0 (Ref WT_REF_MEM (Some parent_disk_first) 7 8))
       Parent_slot {}
   = Fault Assert_failed
   \<and> wt_rec_evict (env_quiet\<lparr>diagnostic := False\<rparr>)
     (session0 (Ref WT_REF_MEM (Some parent_disk_first) 7 8)) Parent_slot {}
   = Fault Null_deref"
  by code_simp

section \<open>Root-split collapse\<close>

lemma pg_id_root_written [simp]: "pg_id (root_written E p) = pg_id p"
  by (simp add: root_written_def wt_rec_write_def wt_page_set_modified_def at_address_def
      set_flags_def)

lemma rec_root_split_null: "rec_root_split E s None = Done (0, s)"
  by (subst rec_root_split.simps) simp

lemma rec_root_split_replace:
  assumes "root_step_ok E p"
    and "F_ISSET (root_written E p) WT_PAGE_REC_MASK = {WT_PAGE_REC_REPLACE}"
    and "pg_modify (root_written E p) = Some m"
  shows "rec_root_split E s (Some p) =
           Done (0, s\<lparr>root_page := Ref (ref_state (root_page s)) None
                                     (write_off_addr m) (write_off_size m),
                      pages_out := pages_out s @ [pg_id p]\<rparr>)"
proof -
  from assms have
    "fst (wt_page_set_modified E p) = 0"
    "fst (wt_rec_write E
            (set_flags (pg_flags (snd (wt_page_set_modified E p)) - WT_PAGE_REC_MASK)
               (snd (wt_page_set_modified E p)))) = 0"
    "rec_track_discard E (root_written E p) = 0"
    by (simp_all add: root_step_ok_def)
  with assms(2,3) show ?thesis
    by (subst rec_root_split.simps)
       (simp add: case_prod_beta root_written_def [symmetric] rec_discard_page_def
          rec_root_split_null)
qed

lemma rec_root_split_split:
  assumes "root_step_ok E p"
    and "F_ISSET (root_written E p) WT_PAGE_REC_MASK = {WT_PAGE_REC_SPLIT}"
    and "pg_modify (root_written E p) = Some m"
  shows "rec_root_split E s (Some p) =
           rec_root_split E (s\<lparr>pages_out := pages_out s @ [pg_id p]\<rparr>) (write_split m)"
proof -
  from assms have
    "fst (wt_page_set_modified E p) = 0"
    "fst (wt_rec_write E
            (set_flags (pg_flags (snd (wt_page_set_modified E p)) - WT_PAGE_REC_MASK)
               (snd (wt_page_set_modified E p)))) = 0"
    "rec_track_discard E (root_written E p) = 0"
    by (simp_all add: root_step_ok_def)
  with assms(2,3) show ?thesis
    by (subst rec_root_split.simps)
       (simp add: case_prod_beta root_written_def [symmetric] rec_discard_page_def)
qed


text \<open>
  C6. Along a finite chain of pages in which each page reconciles to a split whose new
  page is the next one, and the last to a replacement at address \<open>a\<close> of size \<open>sz\<close>
  (marking, writing and discarding each page returning 0), \<open>__rec_root_split\<close> returns
  0, leaves \<open>btree->root_page\<close> with address \<open>a\<close>, size \<open>sz\<close> and a null page pointer,
  and has discarded every page of the chain once, in order, the last one included.
\<close>

theorem rec_root_split_collapses:
  assumes "split_chain E (p # ps) a sz"
  shows "rec_root_split E s (Some p) =
           Done (0, s\<lparr>root_page := Ref (ref_state (root_page s)) None a sz,
                      pages_out := pages_out s @ map pg_id (p # ps)\<rparr>)"
  using assms
proof (induction ps arbitrary: p s)
  case Nil
  then obtain m where "pg_modify (root_written E p) = Some m" "write_off_addr m = a"
    "write_off_size m = sz"
    by (auto split: option.splits)
  with Nil show ?case by (simp add: rec_root_split_replace)
next
  case (Cons q ps)
  then obtain m where m: "pg_modify (root_written E p) = Some m" "write_split m = Some q"
    by (auto split: option.splits)
  from Cons.prems have rest: "split_chain E (q # ps) a sz" by simp
  from Cons.prems m show ?case
    by (simp add: rec_root_split_split Cons.IH [OF rest])
qed


theorem rec_root_split_collapses_witness:
  "split_chain env_chain [root11, root12] 66 4096
   \<and> rec_root_split env_chain (session0 (Ref WT_REF_DISK None 0 0)) (Some root11) =
       Done (0, session0 (Ref WT_REF_DISK None 0 0)
                  \<lparr>root_page := Ref WT_REF_DISK None 66 4096, pages_out := [11, 12]\<rparr>)"
proof -
  have chain: "split_chain env_chain [root11, root12] 66 4096"
    by code_simp
  from rec_root_split_collapses [OF chain, of "session0 (Ref WT_REF_DISK None 0 0)"] chain
  show ?thesis
    by (simp add: session0_def root11_def root12_def)
qed


section \<open>The column discard walk and the row macro\<close>

lemma mirror_type_involution [simp]: "mirror_type (mirror_type ty) = ty"
  by (cases ty) (simp_all add: mirror_type_def)

lemma mirror_type_int [simp]:
  "(mirror_type ty = WT_PAGE_ROW_INT) = (ty = WT_PAGE_COL_INT)"
  by (cases ty) (simp_all add: mirror_type_def)

lemma mirror_involution:
  fixes r :: wt_ref and p :: wt_page and m :: wt_modify
  shows "mirror_ref (mirror_ref r) = r" and "mirror_page (mirror_page p) = p" and "m = m"
proof (induct r and p and m)
  case (Ref st pg a sz)
  then show ?case by (cases pg) simp_all
next
  case (Page i ty fl par m g rs)
  then show ?case by (simp add: map_idI)
next
  case (Modify a sz pg)
  show ?case by simp
qed

lemma mirror_page_fields [simp]:
  "pg_id (mirror_page p) = pg_id p"
  "pg_modify (mirror_page p) = pg_modify p"
  "pg_refs (mirror_page p) = map mirror_ref (pg_refs p)"
  "pg_type (mirror_page p) = mirror_type (pg_type p)"
  by (cases p; simp)+

lemma mirror_ref_fields [simp]:
  "ref_state (mirror_ref r) = ref_state r"
  "ref_page (mirror_ref r) = map_option mirror_page (ref_page r)"
  by (cases r; simp)+

lemma rec_discard_page_mirror:
  "rec_discard_page (mirror_env E) s (mirror_page p) = rec_discard_page E s p"
  by (simp add: rec_discard_page_def mirror_env_def mirror_involution)

lemma discard_col_spec: "rec_sub_discard_col E s crefs = rec_sub_discard_col_spec E s crefs"
  by (induction E s crefs rule: rec_sub_discard_col.induct)
     (auto simp: WT_ROW_REF_PAGE_def WT_COL_REF_PAGE_def
        split: option.splits sum.splits prod.splits)

lemma discard_col_row:
  "rec_sub_discard_col E s crefs = rec_sub_discard_row (mirror_env E) s (map mirror_ref crefs)"
proof (induction "size_list size crefs" arbitrary: s crefs rule: less_induct)
  case less
  show ?case
  proof (cases crefs)
    case Nil
    then show ?thesis by simp
  next
    case (Cons cref rest)
    have rest: "rec_sub_discard_col E s' rest =
                  rec_sub_discard_row (mirror_env E) s' (map mirror_ref rest)" for s'
      using less [of rest s'] Cons by simp
    have child: "rec_sub_discard_col E s' (pg_refs page) =
                   rec_sub_discard_row (mirror_env E) s' (map mirror_ref (pg_refs page))"
      if "ref_page cref = Some page" for s' page
      using less [of "pg_refs page" s'] Cons size_child_refs [OF that, of "size_list size rest"]
      by simp
    show ?thesis
      unfolding Cons
      by (cases "ref_page cref")
         (simp_all add: WT_ROW_REF_PAGE_def rest child rec_discard_page_mirror
            split: option.splits sum.splits prod.splits)
  qed
qed


text \<open>
  C10. \<open>__rec_sub_discard_col\<close>, which reads the page of each column slot with
  \<open>WT_ROW_REF_PAGE\<close>, returns the same code and discards the same pages in the same order
  as the walk written with \<open>WT_COL_REF_PAGE\<close>: the two macros read the same pointer of
  every slot. The column walk over a tree is the row walk over the same tree with the two
  internal page types exchanged.
\<close>

theorem discard_col_by_row_accessor:
  "rec_sub_discard_col E s crefs = rec_sub_discard_col_spec E s crefs
   \<and> WT_ROW_REF_PAGE cref = WT_COL_REF_PAGE cref
   \<and> rec_sub_discard_col E s crefs =
       rec_sub_discard_row (mirror_env E) s (map mirror_ref crefs)"
  using discard_col_spec discard_col_row
  by (simp add: WT_ROW_REF_PAGE_def WT_COL_REF_PAGE_def)

section \<open>What the review, the unlock and the discards leave alone\<close>

lemma get_put_ref [simp]: "get_ref (put_ref s p r) q = (if q = p then r else get_ref s q)"
  by (cases p; cases q) (simp_all add: get_ref_def put_ref_def)

lemma put_ref_fields [simp]:
  "pages_out (put_ref s p r) = pages_out s"
  "cache_read_gen (put_ref s p r) = cache_read_gen s"
  "hazard_reads (put_ref s p r) = hazard_reads s"
  "cache_hazard (put_ref s p r) = cache_hazard s"
  "stat_cache_evict_unmodified (put_ref s p r) = stat_cache_evict_unmodified s"
  "stat_cache_evict_modified (put_ref s p r) = stat_cache_evict_modified s"
  "stat_rec_hazard (put_ref s p r) = stat_rec_hazard s"
  by (cases p; simp add: put_ref_def)+

lemma hazard_only_refl [simp]: "hazard_only s s"
  by (simp add: hazard_only_def)

lemma hazard_only_trans: "hazard_only s s1 \<Longrightarrow> hazard_only s1 s2 \<Longrightarrow> hazard_only s s2"
  by (simp add: hazard_only_def)

lemma hazard_only_get [simp]: "hazard_only s s' \<Longrightarrow> get_ref s' q = get_ref s q"
  by (cases q) (simp_all add: get_ref_def hazard_only_def)

lemma hazard_only_put: "hazard_only s s' \<Longrightarrow> hazard_only (put_ref s p r) (put_ref s' p r)"
  by (cases p) (simp_all add: put_ref_def hazard_only_def)

lemma hazard_only_step [simp]:
  "hazard_only s (hazard_copy E s)" "hazard_only s (hazard_bump s)"
  by (simp_all add: hazard_only_def hazard_copy_def hazard_bump_def)

lemma hazard_retry_frame:
  assumes "hazard_retry E s key force = Some y"
  shows "hazard_only s (snd y)"
proof (rule hazard_retry.raw_induct
         [where P = "\<lambda>E s key force y. hazard_only s (snd y)", OF _ assms])
  fix hr E s key force y
  assume ih: "\<And>E s key force y. hr E s key force = Some y \<Longrightarrow> hazard_only s (snd y)"
    and body: "(let s1 = hazard_copy E s in
                if \<not> hazard_found key s1 then Some (0, s1)
                else let s2 = s1\<lparr>stat_rec_hazard := Suc (stat_rec_hazard s1)\<rparr> in
                  if force then hr E s2 key force else Some (1, s2)) = Some y"
  show "hazard_only s (snd y)"
  proof (cases "hazard_found key (hazard_copy E s)")
    case False
    with body show ?thesis by (auto simp: Let_def)
  next
    case True
    show ?thesis
    proof (cases force)
      case False
      with body True have "y = (1, hazard_bump (hazard_copy E s))"
        by (auto simp: Let_def hazard_bump_def)
      then show ?thesis
        by (simp add: hazard_only_def hazard_bump_def hazard_copy_def)
    next
      case force: True
      with body True have "hr E (hazard_bump (hazard_copy E s)) key force = Some y"
        by (simp add: Let_def hazard_bump_def)
      from ih [OF this] show ?thesis
        by (simp add: hazard_only_def hazard_bump_def hazard_copy_def)
    qed
  qed
qed

lemma hazard_exclusive_frame:
  assumes "hazard_exclusive E s r force = Done (ret, s', r')"
  shows "hazard_only s s'" and "ref_page r' = ref_page r" and "ref_addr r' = ref_addr r"
    and "ref_size r' = ref_size r"
    and "ret = 0 \<Longrightarrow> ref_state r' = WT_REF_LOCKED"
    and "ret \<noteq> 0 \<Longrightarrow> ref_state r' = WT_REF_MEM"
proof -
  from assms obtain y where y: "hazard_retry E s (page_ptr (ref_page r)) force = Some y"
    and res: "(ret, s', r') = (if fst y = 0 then (0, snd y, set_state WT_REF_LOCKED r)
                               else (fst y, snd y, set_state WT_REF_MEM r))"
    by (auto simp: hazard_exclusive_def Let_def set_state_def
          split: if_splits option.splits prod.splits)
  from hazard_retry_frame [OF y] res show "hazard_only s s'" by (auto split: if_splits)
  from res show "ref_page r' = ref_page r" "ref_addr r' = ref_addr r" "ref_size r' = ref_size r"
    "ret = 0 \<Longrightarrow> ref_state r' = WT_REF_LOCKED" "ret \<noteq> 0 \<Longrightarrow> ref_state r' = WT_REF_MEM"
    by (auto simp: set_state_def split: if_splits)
qed

lemma rec_sub_excl_page_frame:
  assumes "rec_sub_excl_page E s r pg flags = Done (ret, s', r')"
  shows "hazard_only s s'" and "ref_page r' = ref_page r" and "ref_addr r' = ref_addr r"
    and "ref_size r' = ref_size r"
proof -
  from assms obtain p where p: "pg = Some p" by (cases pg) (auto simp: rec_sub_excl_page_def)
  show "hazard_only s s'" "ref_page r' = ref_page r" "ref_addr r' = ref_addr r"
    "ref_size r' = ref_size r"
    using assms p
    by (auto simp: rec_sub_excl_page_def split: if_splits option.splits sum.splits
          dest: hazard_exclusive_frame)
qed

lemma excl_next_Done:
  "excl_next r x = Done (ret, s', rs', lp') \<Longrightarrow>
   \<exists>rs''. x = Done (ret, s', rs'', lp') \<and> rs' = r # rs''"
  by (auto simp: excl_next_def split: option.splits sum.splits)

lemma rec_sub_excl_frame:
  "rec_sub_excl ty E s rs lp flags = Done (ret, s', rs', lp') \<Longrightarrow> hazard_only s s'"
proof (induction "size_list size rs" arbitrary: s rs lp ret s' rs' lp' rule: less_induct)
  case less
  show ?case
  proof (cases rs)
    case Nil
    with less.prems show ?thesis by simp
  next
    case (Cons r rest)
    have rest: "hazard_only s1 s2"
      if "rec_sub_excl ty E s1 rest lp1 flags = Done (ret1, s2, rs1, lp2)"
      for s1 lp1 ret1 s2 rs1 lp2
      using less.hyps [of rest s1 lp1 ret1 s2 rs1 lp2] Cons that by simp
    have child: "hazard_only s1 s2"
      if "ref_page r = Some p" "rec_sub_excl ty E s1 (pg_refs p) lp1 flags = Done (ret1, s2, rs1, lp2)"
      for p s1 lp1 ret1 s2 rs1 lp2
      using less.hyps [of "pg_refs p" s1 lp1 ret1 s2 rs1 lp2] Cons that
        size_child_refs [OF that(1), of "size_list size rest"]
      by simp
    show ?thesis
    proof (cases "ref_state r")
      case WT_REF_DISK
      with less.prems Cons show ?thesis
        by (auto dest!: excl_next_Done intro: rest)
    next
      case WT_REF_LOCKED
      with less.prems Cons show ?thesis by auto
    next
      case WT_REF_READING
      with less.prems Cons show ?thesis by auto
    next
      case WT_REF_MEM
      from less.prems Cons WT_REF_MEM obtain ret1 s1 r1 where
        pg: "rec_sub_excl_page E s r (ref_page r) flags = Done (ret1, s1, r1)"
        by (auto split: option.splits sum.splits)
      note h1 = rec_sub_excl_page_frame(1) [OF pg]
      show ?thesis
      proof (cases "ret1 = 0")
        case False
        with less.prems Cons WT_REF_MEM pg h1 show ?thesis by auto
      next
        case True
        with less.prems Cons WT_REF_MEM pg obtain p where p: "ref_page r = Some p"
          by (auto split: option.splits)
        show ?thesis
        proof (cases "pg_type p = ty")
          case False
          with less.prems Cons WT_REF_MEM pg True p
          have "excl_next r1 (rec_sub_excl ty E s1 rest (Some (pg_id p)) flags)
                  = Done (ret, s', rs', lp')"
            by simp
          from excl_next_Done [OF this] rest h1 show ?thesis
            by (blast intro: hazard_only_trans)
        next
          case ty: True
          with less.prems Cons WT_REF_MEM pg True p obtain ret2 s2 cs lp2 where
            c: "rec_sub_excl ty E s1 (pg_refs p) (Some (pg_id p)) flags = Done (ret2, s2, cs, lp2)"
            by (auto split: option.splits sum.splits)
          note h2 = child [OF p c]
          show ?thesis
          proof (cases "ret2 = 0")
            case False
            with less.prems Cons WT_REF_MEM pg True p ty c h1 h2 show ?thesis
              by (auto intro: hazard_only_trans)
          next
            case r2: True
            with less.prems Cons WT_REF_MEM pg True p ty c
            have "excl_next (set_page (Some (set_refs cs p)) r1)
                    (rec_sub_excl ty E s2 rest lp2 flags) = Done (ret, s', rs', lp')"
              by simp
            from excl_next_Done [OF this] rest h1 h2 show ?thesis
              by (blast intro: hazard_only_trans)
          qed
        qed
      qed
    qed
  qed
qed

lemma freed_simps [simp]:
  "freed [] s = s" "freed b (freed a s) = freed (a @ b) s"
  "pages_out (freed ids s) = pages_out s @ ids"
  "root_page (freed ids s) = root_page s" "parent_slot (freed ids s) = parent_slot s"
  "stat_cache_evict_unmodified (freed ids s) = stat_cache_evict_unmodified s"
  "stat_cache_evict_modified (freed ids s) = stat_cache_evict_modified s"
  "get_ref (freed ids s) q = get_ref s q"
  by (simp_all add: freed_def get_ref_def split: ref_ptr.splits)

lemma rec_discard_page_cases:
  "rec_discard_page E s p = (0, freed [pg_id p] s)
   \<or> (fst (rec_discard_page E s p) \<noteq> 0 \<and> rec_discard_page E s p = (rec_track_discard E p, s))"
  by (simp add: rec_discard_page_def freed_def)

lemma rec_discard_page_ok:
  "rec_discard_page E s p = (0, s') \<Longrightarrow> s' = freed [pg_id p] s"
  using rec_discard_page_cases [of E s p] by auto

lemma rec_discard_page_err:
  "rec_discard_page E s p = (ret, s') \<Longrightarrow> ret \<noteq> 0 \<Longrightarrow> s' = s \<and> ret = rec_track_discard E p"
  using rec_discard_page_cases [of E s p] by auto

lemma discard_col_walk:
  "rec_sub_discard_col E s rs = rec_sub_discard_walk WT_PAGE_COL_INT E s rs"
  by (induction E s rs rule: rec_sub_discard_col.induct)
     (auto simp: WT_ROW_REF_PAGE_def split: option.splits sum.splits prod.splits)

lemma discard_row_walk:
  "rec_sub_discard_row E s rs = rec_sub_discard_walk WT_PAGE_ROW_INT E s rs"
  by (induction E s rs rule: rec_sub_discard_row.induct)
     (auto simp: WT_ROW_REF_PAGE_def split: option.splits sum.splits prod.splits)

lemma discard_walk_pages:
  "rec_sub_discard_walk ty E s rs = Done (ret, s') \<Longrightarrow>
   (\<exists>ids. s' = freed ids s) \<and> (ret = 0 \<longrightarrow> s' = freed (merged ty rs) s)"
proof (induction "size_list size rs" arbitrary: s rs ret s' rule: less_induct)
  case less
  show ?case
  proof (cases rs)
    case Nil
    with less.prems show ?thesis by (auto intro: exI [of _ "[]"])
  next
    case (Cons r rest)
    note rest = less.hyps [of rest, unfolded Cons, simplified]
    have child: "(\<exists>ids. s2 = freed ids s1)
                 \<and> (ret1 = 0 \<longrightarrow> s2 = freed (merged ty (pg_refs p)) s1)"
      if "ref_page r = Some p" "rec_sub_discard_walk ty E s1 (pg_refs p) = Done (ret1, s2)"
      for p s1 ret1 s2
      using less.hyps [of "pg_refs p" s1 ret1 s2] Cons that
        size_child_refs [OF that(1), of "size_list size rest"]
      by simp
    show ?thesis
    proof (cases "ref_state r = WT_REF_DISK")
      case True
      with less.prems Cons rest show ?thesis by simp
    next
      case False
      with less.prems Cons obtain p where p: "ref_page r = Some p"
        by (auto split: option.splits)
      let ?sub = "if pg_type p = ty
                  then rec_sub_discard_walk ty E s (pg_refs p) else Done (0, s)"
      from less.prems Cons False p obtain ret1 s1 where sub: "?sub = Done (ret1, s1)"
        by (auto split: option.splits sum.splits if_splits)
      have s1: "(\<exists>ids. s1 = freed ids s)
                \<and> (ret1 = 0 \<longrightarrow> s1 = freed (if pg_type p = ty
                                            then merged ty (pg_refs p) else []) s)"
        using sub child [OF p] by (auto split: if_splits intro: exI [of _ "[]"])
      show ?thesis
      proof (cases "ret1 = 0")
        case False
        with less.prems Cons \<open>ref_state r \<noteq> WT_REF_DISK\<close> p sub s1 show ?thesis
          by (auto split: if_splits)
      next
        case True
        obtain ret2 s2 where d: "rec_discard_page E s1 p = (ret2, s2)"
          by (cases "rec_discard_page E s1 p")
        show ?thesis
        proof (cases "ret2 = 0")
          case False
          with less.prems Cons \<open>ref_state r \<noteq> WT_REF_DISK\<close> p sub True d
          have "ret = ret2" "s' = s2"
            by (auto split: if_splits)
          with rec_discard_page_err [OF d False] s1 False show ?thesis by auto
        next
          case r2: True
          with less.prems Cons \<open>ref_state r \<noteq> WT_REF_DISK\<close> p sub True d
          have "rec_sub_discard_walk ty E s2 rest = Done (ret, s')"
            by (auto split: if_splits)
          from rest [OF this] rec_discard_page_ok [of E s1 p s2] d r2 s1 True
            \<open>ref_state r \<noteq> WT_REF_DISK\<close> p Cons
          show ?thesis by auto
        qed
      qed
    qed
  qed
qed


lemma rec_sub_discard_pages:
  assumes "rec_sub_discard E s page = Done (ret, s')"
  shows "\<exists>ids. s' = freed ids s" and "ret = 0 \<Longrightarrow> s' = freed (merged_pages page) s"
  using assms discard_walk_pages [of WT_PAGE_COL_INT E s "pg_refs page" ret s']
    discard_walk_pages [of WT_PAGE_ROW_INT E s "pg_refs page" ret s']
  by (auto simp: rec_sub_discard_def merged_pages_def discard_col_walk discard_row_walk
        split: page_type.splits intro: exI [of _ "[]"])

lemma dirty_discard_pages:
  assumes "dirty_discard E s page = Done (ret, s')"
  shows "\<exists>ids. s' = freed ids s"
    and "ret = 0 \<Longrightarrow> s' = freed (merged_pages page @ [pg_id page]) s"
proof -
  from assms obtain ret1 s1 where sub: "rec_sub_discard E s page = Done (ret1, s1)"
    by (auto simp: dirty_discard_def split: option.splits sum.splits)
  note f = rec_sub_discard_pages [OF sub]
  show "\<exists>ids. s' = freed ids s"
  proof (cases "ret1 = 0")
    case False
    with assms sub f(1) show ?thesis by (auto simp: dirty_discard_def)
  next
    case True
    with assms sub have d: "rec_discard_page E s1 page = (ret, s')"
      by (auto simp: dirty_discard_def)
    with rec_discard_page_cases [of E s1 page] f(1) show ?thesis by auto
  qed
  show "s' = freed (merged_pages page @ [pg_id page]) s" if "ret = 0"
  proof (cases "ret1 = 0")
    case False
    with assms sub that show ?thesis by (auto simp: dirty_discard_def)
  next
    case True
    with assms sub have d: "rec_discard_page E s1 page = (ret, s')"
      by (auto simp: dirty_discard_def)
    with rec_discard_page_ok [of E s1 page s'] that f(2) [OF True] show ?thesis by auto
  qed
qed

lemma clear_next_Done:
  "clear_next r x = Done (ret, rs') \<Longrightarrow> \<exists>rs''. x = Done (ret, rs'') \<and> rs' = r # rs''"
  by (auto simp: clear_next_def split: option.splits sum.splits)

lemma clear_walk_locked:
  "locked_region ty rs \<Longrightarrow> rec_sub_excl_clear_walk ty E rs None = Done (0, release ty rs)"
proof (induction "size_list size rs" arbitrary: rs rule: less_induct)
  case less
  show ?case
  proof (cases rs)
    case Nil
    then show ?thesis by simp
  next
    case (Cons r rest)
    with less.prems obtain p where p: "ref_page r = Some p" and st: "ref_state r = WT_REF_LOCKED"
      and lr: "locked_region ty rest"
      and lc: "pg_type p = ty \<Longrightarrow> locked_region ty (pg_refs p)"
      by (auto split: option.splits if_splits)
    have rest: "rec_sub_excl_clear_walk ty E rest None = Done (0, release ty rest)"
      using less.hyps [of rest] Cons lr by simp
    have child: "rec_sub_excl_clear_walk ty E (pg_refs p) None = Done (0, release ty (pg_refs p))"
      if "pg_type p = ty"
      using less.hyps [of "pg_refs p"] Cons lc [OF that]
        size_child_refs [OF p, of "size_list size rest"]
      by simp
    show ?thesis
      unfolding Cons using p st rest child
      by (simp add: page_ptr_def clear_next_def set_state_def)
  qed
qed

lemma rec_sub_excl_clear_locked:
  assumes "WT_REC_SINGLE \<notin> flags" and "get_ref s ptr = Ref WT_REF_LOCKED (Some page) a sz"
    and "locked_below page"
  shows "rec_sub_excl_clear E s ptr None flags =
           Done (put_ref s ptr (Ref WT_REF_MEM (Some (release_below page)) a sz))"
  using assms
  by (cases "pg_type page")
     (simp_all add: rec_sub_excl_clear_def locked_below_def release_below_def set_state_def
        set_page_def clear_store_def rec_sub_excl_col_clear_def rec_sub_excl_row_clear_def
        clear_walk_locked)

lemma rec_sub_excl_clear_frame:
  assumes "rec_sub_excl_clear E s ptr lp flags = Done s'"
  shows "\<exists>r'. s' = put_ref s ptr r' \<and> ref_addr r' = ref_addr (get_ref s ptr)
              \<and> ref_size r' = ref_size (get_ref s ptr)
              \<and> page_ptr (ref_page r') = page_ptr (ref_page (get_ref s ptr))
              \<and> (WT_REC_SINGLE \<notin> flags \<longrightarrow> ref_state r' = WT_REF_MEM)"
proof (cases "WT_REC_SINGLE \<in> flags")
  case True
  with assms have "s' = s" by (simp add: rec_sub_excl_clear_def)
  moreover have "put_ref s ptr (get_ref s ptr) = s"
    by (cases ptr) (simp_all add: put_ref_def get_ref_def)
  ultimately show ?thesis using True by (intro exI [of _ "get_ref s ptr"]) simp
next
  case False
  with assms show ?thesis
    by (auto simp: rec_sub_excl_clear_def clear_store_def set_state_def set_page_def
          set_refs_def page_ptr_def Let_def
          split: option.splits if_splits page_type.splits sum.splits)
qed

lemma cell_step_refl [simp]: "cell_step ptr s s"
  by (simp add: cell_step_def)

lemma cell_step_trans: "cell_step ptr s s1 \<Longrightarrow> cell_step ptr s1 s2 \<Longrightarrow> cell_step ptr s s2"
  by (simp add: cell_step_def)

lemma cell_step_hazard: "hazard_only s s' \<Longrightarrow> cell_step ptr s s'"
  by (simp add: cell_step_def) (simp add: hazard_only_def)

lemma cell_step_put:
  "ref_addr r = ref_addr (get_ref s ptr) \<Longrightarrow> ref_size r = ref_size (get_ref s ptr) \<Longrightarrow>
   page_ptr (ref_page r) = page_ptr (ref_page (get_ref s ptr)) \<Longrightarrow>
   cell_step ptr s (put_ref s ptr r)"
  by (simp add: cell_step_def)

lemma cell_step_clear:
  "rec_sub_excl_clear E s ptr lp flags = Done s' \<Longrightarrow> cell_step ptr s s'"
  by (drule rec_sub_excl_clear_frame) (auto intro: cell_step_put)

lemma cell_step_force:
  "ref_page (get_ref s ptr) = Some page \<Longrightarrow> cell_step ptr s (evict_force s ptr page)"
  by (auto simp: evict_force_def evict_force_clear_def set_page_def set_flags_def page_ptr_def
        intro!: cell_step_put)

lemma review_store_step:
  assumes "review_store E ptr r page flags x = Done (ret, s')"
    and x: "x = Done (ret2, s2, cs, lp2)"
    and r: "ref_addr r = ref_addr (get_ref s2 ptr)" "ref_size r = ref_size (get_ref s2 ptr)"
      "page_ptr (ref_page (get_ref s2 ptr)) = Some (pg_id page)"
  shows "cell_step ptr s2 s'"
proof -
  let ?s3 = "put_ref s2 ptr (set_page (Some (set_refs cs page)) r)"
  have s3: "cell_step ptr s2 ?s3"
    using r by (intro cell_step_put) (auto simp: set_page_def set_refs_def page_ptr_def)
  show ?thesis
  proof (cases "ret2 = 0")
    case True
    with assms s3 show ?thesis by (simp add: review_store_def)
  next
    case False
    with assms obtain s4 where "rec_sub_excl_clear E ?s3 ptr lp2 flags = Done s4" "s' = s4"
      by (auto simp: review_store_def Let_def split: option.splits sum.splits)
    with cell_step_clear s3 show ?thesis by (blast intro: cell_step_trans)
  qed
qed

lemma review_walk_step:
  assumes "review_walk E s ptr r page lp flags = Done (ret, s')"
    and r: "ref_addr r = ref_addr (get_ref s ptr)" "ref_size r = ref_size (get_ref s ptr)"
      "page_ptr (ref_page (get_ref s ptr)) = Some (pg_id page)"
  shows "cell_step ptr s s'"
proof (cases "pg_type page = WT_PAGE_COL_INT \<or> pg_type page = WT_PAGE_ROW_INT")
  case False
  with assms(1) show ?thesis by (cases "pg_type page") (simp_all add: review_walk_def)
next
  case True
  define ty where "ty = pg_type page"
  let ?x = "rec_sub_excl ty E s (pg_refs page) lp flags"
  from True assms(1) have st: "review_store E ptr r page flags ?x = Done (ret, s')"
    by (auto simp: review_walk_def rec_sub_excl_col_def rec_sub_excl_row_def ty_def)
  then obtain ret2 s2 cs lp2 where x: "?x = Done (ret2, s2, cs, lp2)"
    by (auto simp: review_store_def split: option.splits sum.splits)
  from rec_sub_excl_frame [OF x] have h: "hazard_only s s2" .
  then have g: "get_ref s2 ptr = get_ref s ptr" by simp
  from review_store_step [OF st x] r g have "cell_step ptr s2 s'" by simp
  with cell_step_hazard [OF h] show ?thesis by (blast intro: cell_step_trans)
qed

lemma rec_review_step:
  assumes "rec_review E s ptr flags = Done (ret, s')"
  shows "cell_step ptr s s'"
proof -
  from assms obtain page where page: "ref_page (get_ref s ptr) = Some page"
    by (auto simp: rec_review_def split: option.splits)
  show ?thesis
  proof (cases "WT_REC_SINGLE \<in> flags")
    case True
    with assms page have "review_walk E s ptr (get_ref s ptr) page None flags = Done (ret, s')"
      by (simp add: rec_review_def)
    from review_walk_step [OF this] page show ?thesis by (simp add: page_ptr_def)
  next
    case False
    with assms page obtain ret1 s1 r1 where
      hz: "hazard_exclusive E s (get_ref s ptr) (WT_REC_WAIT \<in> flags) = Done (ret1, s1, r1)"
      by (auto simp: rec_review_def split: option.splits sum.splits)
    note f = hazard_exclusive_frame [OF hz]
    have p1: "cell_step ptr s (put_ref s1 ptr r1)"
    proof -
      have "cell_step ptr s1 (put_ref s1 ptr r1)"
        using f by (intro cell_step_put) simp_all
      with cell_step_hazard [OF f(1)] show ?thesis by (blast intro: cell_step_trans)
    qed
    show ?thesis
    proof (cases "ret1 = 0")
      case False
      with assms page \<open>WT_REC_SINGLE \<notin> flags\<close> hz p1 show ?thesis
        by (simp add: rec_review_def)
    next
      case True
      with assms page \<open>WT_REC_SINGLE \<notin> flags\<close> hz
      have "review_walk E (put_ref s1 ptr r1) ptr r1 page (Some (pg_id page)) flags
              = Done (ret, s')"
        by (simp add: rec_review_def)
      from review_walk_step [OF this] f page have "cell_step ptr (put_ref s1 ptr r1) s'"
        by (simp add: page_ptr_def)
      with p1 show ?thesis by (blast intro: cell_step_trans)
    qed
  qed
qed

lemma rec_root_split_stat:
  assumes "rec_root_split E s pg = Some y"
  shows "\<forall>ret s'. y = Inr (ret, s') \<longrightarrow>
           stat_cache_evict_unmodified s' = stat_cache_evict_unmodified s"
  by (rule rec_root_split.raw_induct
        [where P = "\<lambda>E s pg y. \<forall>ret s'. y = Inr (ret, s') \<longrightarrow>
           stat_cache_evict_unmodified s' = stat_cache_evict_unmodified s", OF _ assms])
     (auto simp: rec_discard_page_def split: option.splits prod.splits if_splits)


lemma dirty_discard_stat:
  "dirty_discard E s page = Done (ret, s') \<Longrightarrow>
   stat_cache_evict_unmodified s' = stat_cache_evict_unmodified s"
  by (drule dirty_discard_pages(1)) auto

lemma rec_parent_dirty_update_stat:
  assumes "rec_parent_dirty_update E s ptr page flags = Done (ret, s')"
  shows "stat_cache_evict_unmodified s' = stat_cache_evict_unmodified s"
proof (cases "F_ISSET page WT_PAGE_REC_MASK = {WT_PAGE_REC_EMPTY}")
  case empty: True
  show ?thesis
  proof (cases "WT_PAGE_IS_ROOT page")
    case True
    with assms empty have "dirty_discard E
        (put_ref s ptr (Ref WT_REF_DISK None (addr_invalid E) (ref_size (get_ref s ptr)))) page
          = Done (ret, s')"
      by (simp add: rec_parent_dirty_update_def Let_def)
    from dirty_discard_stat [OF this] show ?thesis by simp
  next
    case False
    with assms empty obtain s1 where "rec_sub_excl_clear E s ptr None flags = Done s1" "s' = s1"
      by (auto simp: rec_parent_dirty_update_def Let_def split: option.splits sum.splits)
    with cell_step_clear [of E s ptr None flags s1] show ?thesis by (simp add: cell_step_def)
  qed
next
  case not_empty: False
  show ?thesis
  proof (cases "F_ISSET page WT_PAGE_REC_MASK = {WT_PAGE_REC_REPLACE}")
    case True
    with assms not_empty obtain m where "dirty_discard E
        (put_ref s ptr (Ref WT_REF_DISK None (write_off_addr m) (write_off_size m))) page
          = Done (ret, s')"
      by (auto simp: rec_parent_dirty_update_def Let_def split: option.splits)
    from dirty_discard_stat [OF this] show ?thesis by simp
  next
    case not_replace: False
    show ?thesis
    proof (cases "F_ISSET page WT_PAGE_REC_MASK = {WT_PAGE_REC_SPLIT}")
      case False
      with assms not_empty not_replace show ?thesis
        by (simp add: rec_parent_dirty_update_def Let_def)
    next
      case split: True
      with assms not_empty not_replace obtain m where m: "pg_modify page = Some m"
        by (auto simp: rec_parent_dirty_update_def Let_def split: option.splits)
      show ?thesis
      proof (cases "WT_PAGE_IS_ROOT page")
        case False
        with assms not_empty not_replace split m have "dirty_discard E
            (put_ref s ptr (Ref WT_REF_MEM (write_split m) (ref_addr (get_ref s ptr))
               (ref_size (get_ref s ptr)))) page = Done (ret, s')"
          by (simp add: rec_parent_dirty_update_def Let_def)
        from dirty_discard_stat [OF this] show ?thesis by simp
      next
        case True
        with assms not_empty not_replace split m obtain ret1 s1 where
          rs: "rec_root_split E s (write_split m) = Done (ret1, s1)"
          by (auto simp: rec_parent_dirty_update_def Let_def split: option.splits sum.splits)
        from rec_root_split_stat [OF rs]
        have s1: "stat_cache_evict_unmodified s1 = stat_cache_evict_unmodified s" by simp
        show ?thesis
        proof (cases "ret1 = 0")
          case False
          with assms not_empty not_replace split True m rs s1 show ?thesis
            by (simp add: rec_parent_dirty_update_def Let_def)
        next
          case ok: True
          with assms not_empty not_replace split True m rs
          have "dirty_discard E (put_ref s1 ptr (set_state WT_REF_DISK (get_ref s1 ptr))) page
                  = Done (ret, s')"
            by (simp add: rec_parent_dirty_update_def Let_def)
          from dirty_discard_stat [OF this] s1 show ?thesis by simp
        qed
      qed
    qed
  qed
qed

lemma evict_err_stat:
  "evict_err E s ptr flags e = Done (ret, s') \<Longrightarrow>
   ret = e \<and> stat_cache_evict_unmodified s' = stat_cache_evict_unmodified s"
  by (auto simp: evict_err_def cell_step_def split: option.splits sum.splits
        dest!: cell_step_clear)

lemma pg_id_written [simp]: "pg_id (snd (wt_rec_write E page)) = pg_id page"
  by (simp add: wt_rec_write_def at_address_def)


section \<open>The discards of the dirty parent update\<close>

lemma discard_ret_append:
  "discard_ret E (xs @ ys) =
     (if discard_ret E xs \<noteq> 0 then discard_ret E xs else discard_ret E ys)"
  by (induction xs) auto

lemma discard_done_append:
  "discard_done E (xs @ ys) =
     (if discard_ret E xs \<noteq> 0 then discard_done E xs
      else discard_done E xs @ discard_done E ys)"
  by (induction xs) auto

lemma rec_discard_page_trace:
  "rec_discard_page E s p = (discard_ret E [p], freed (discard_done E [p]) s)"
  by (simp add: rec_discard_page_def freed_def)

lemma discard_walk_trace:
  "rec_sub_discard_walk ty E s rs = Done (ret, s') \<Longrightarrow>
   ret = discard_ret E (merged_list ty rs)
   \<and> s' = freed (discard_done E (merged_list ty rs)) s"
proof (induction "size_list size rs" arbitrary: s rs ret s' rule: less_induct)
  case less
  show ?case
  proof (cases rs)
    case Nil
    with less.prems show ?thesis by simp
  next
    case (Cons r rest)
    note rest = less.hyps [of rest, unfolded Cons, simplified]
    have child: "ret1 = discard_ret E (merged_list ty (pg_refs p))
                 \<and> s2 = freed (discard_done E (merged_list ty (pg_refs p))) s1"
      if "ref_page r = Some p" "rec_sub_discard_walk ty E s1 (pg_refs p) = Done (ret1, s2)"
      for p s1 ret1 s2
      using less.hyps [of "pg_refs p" s1 ret1 s2] Cons that
        size_child_refs [OF that(1), of "size_list size rest"]
      by simp
    show ?thesis
    proof (cases "ref_state r = WT_REF_DISK")
      case True
      with less.prems Cons rest show ?thesis by simp
    next
      case nd: False
      from less.prems Cons nd obtain p where p: "ref_page r = Some p"
        by (cases "ref_page r") auto
      let ?sub = "if pg_type p = ty then merged_list ty (pg_refs p) else []"
      from less.prems Cons nd p obtain ret1 s1 where
        sub: "(if pg_type p = ty then rec_sub_discard_walk ty E s (pg_refs p) else Done (0, s))
                = Done (ret1, s1)"
        by (auto split: option.splits sum.splits if_splits)
      have tr: "ret1 = discard_ret E ?sub \<and> s1 = freed (discard_done E ?sub) s"
        using sub child [OF p] by (auto split: if_splits)
      have ml: "merged_list ty rs = (?sub @ [p]) @ merged_list ty rest"
        using Cons nd p by simp
      show ?thesis
      proof (cases "ret1 = 0")
        case False
        with less.prems Cons nd p sub have "ret = ret1" "s' = s1"
          by (auto split: if_splits)
        with tr False show ?thesis
          by (simp only: ml discard_ret_append discard_done_append) simp
      next
        case r0: True
        obtain ret2 s2 where d: "rec_discard_page E s1 p = (ret2, s2)"
          by (cases "rec_discard_page E s1 p")
        with rec_discard_page_trace [of E s1 p]
        have d2: "ret2 = discard_ret E [p]" "s2 = freed (discard_done E [p]) s1" by simp_all
        show ?thesis
        proof (cases "ret2 = 0")
          case False
          with less.prems Cons nd p sub r0 d have "ret = ret2" "s' = s2"
            by (auto split: if_splits)
          with tr r0 d2 False show ?thesis
            by (simp only: ml discard_ret_append discard_done_append) simp
        next
          case True
          with less.prems Cons nd p sub r0 d
          have "rec_sub_discard_walk ty E s2 rest = Done (ret, s')"
            by (auto split: if_splits)
          from rest [OF this] tr r0 d2 True show ?thesis
            by (simp only: ml discard_ret_append discard_done_append) simp
        qed
      qed
    qed
  qed
qed

lemma dirty_discard_trace:
  assumes "dirty_discard E s page = Done (ret, s')"
  shows "ret = discard_ret E (discard_order page)
         \<and> s' = freed (discard_done E (discard_order page)) s"
proof -
  let ?m = "case pg_type page of
        WT_PAGE_COL_INT \<Rightarrow> merged_list WT_PAGE_COL_INT (pg_refs page)
      | WT_PAGE_ROW_INT \<Rightarrow> merged_list WT_PAGE_ROW_INT (pg_refs page)
      | _ \<Rightarrow> []"
  from assms obtain ret1 s1 where sub: "rec_sub_discard E s page = Done (ret1, s1)"
    by (auto simp: dirty_discard_def split: option.splits sum.splits)
  have tr: "ret1 = discard_ret E ?m \<and> s1 = freed (discard_done E ?m) s"
    using sub discard_walk_trace [of WT_PAGE_COL_INT E s "pg_refs page" ret1 s1]
      discard_walk_trace [of WT_PAGE_ROW_INT E s "pg_refs page" ret1 s1]
    by (auto simp: rec_sub_discard_def discard_col_walk discard_row_walk
          split: page_type.splits)
  have ord: "discard_order page = ?m @ [page]" by (simp add: discard_order_def)
  show ?thesis
  proof (cases "ret1 = 0")
    case False
    with assms sub have "ret = ret1" "s' = s1" by (auto simp: dirty_discard_def)
    with tr False show ?thesis
      by (simp only: ord discard_ret_append discard_done_append) simp
  next
    case True
    with assms sub have "rec_discard_page E s1 page = (ret, s')"
      by (auto simp: dirty_discard_def)
    with rec_discard_page_trace [of E s1 page]
    have "ret = discard_ret E [page]" "s' = freed (discard_done E [page]) s1" by simp_all
    with tr True show ?thesis
      by (simp only: ord discard_ret_append discard_done_append) simp
  qed
qed

lemma rec_root_split_errors:
  assumes "rec_root_split E s pg = Some y"
  shows "\<forall>ret s'. y = Inr (ret, s') \<longrightarrow>
           parent_slot s' = parent_slot s
           \<and> ref_state (root_page s') = ref_state (root_page s)
           \<and> (ret \<noteq> 0 \<longrightarrow>
                (\<exists>p. ret = fst (page_set_modified E p) \<or> ret = fst (rec_write E p)
                     \<or> (pg_modify p \<noteq> None \<and> ret = rec_track_discard E p))
                \<or> ret = illegal_value E)"
  by (rule rec_root_split.raw_induct
        [where P = "\<lambda>E s pg y. \<forall>ret s'. y = Inr (ret, s') \<longrightarrow>
           parent_slot s' = parent_slot s
           \<and> ref_state (root_page s') = ref_state (root_page s)
           \<and> (ret \<noteq> 0 \<longrightarrow>
                (\<exists>p. ret = fst (page_set_modified E p) \<or> ret = fst (rec_write E p)
                     \<or> (pg_modify p \<noteq> None \<and> ret = rec_track_discard E p))
                \<or> ret = illegal_value E)", OF _ assms])
     (auto simp: rec_discard_page_def wt_rec_write_def wt_page_set_modified_def
        split: option.splits prod.splits if_splits)

lemma dirty_update_replace:
  assumes "F_ISSET page WT_PAGE_REC_MASK = {WT_PAGE_REC_REPLACE}"
    and "pg_modify page = Some m"
    and "rec_parent_dirty_update E s ptr page fl = Done (ret, s')"
  shows "ret = discard_ret E (discard_order page)
         \<and> s' = freed (discard_done E (discard_order page))
                  (put_ref s ptr (Ref WT_REF_DISK None (write_off_addr m) (write_off_size m)))"
proof -
  from assms have "dirty_discard E
      (put_ref s ptr (Ref WT_REF_DISK None (write_off_addr m) (write_off_size m))) page
        = Done (ret, s')"
    by (simp add: rec_parent_dirty_update_def Let_def)
  then show ?thesis by (rule dirty_discard_trace)
qed

lemma dirty_update_empty_root:
  assumes "F_ISSET page WT_PAGE_REC_MASK = {WT_PAGE_REC_EMPTY}"
    and "WT_PAGE_IS_ROOT page"
    and "rec_parent_dirty_update E s ptr page fl = Done (ret, s')"
  shows "ret = discard_ret E (discard_order page)
         \<and> s' = freed (discard_done E (discard_order page))
                  (put_ref s ptr
                     (Ref WT_REF_DISK None (addr_invalid E) (ref_size (get_ref s ptr))))"
proof -
  from assms have "dirty_discard E
      (put_ref s ptr (Ref WT_REF_DISK None (addr_invalid E) (ref_size (get_ref s ptr)))) page
        = Done (ret, s')"
    by (simp add: rec_parent_dirty_update_def Let_def)
  then show ?thesis by (rule dirty_discard_trace)
qed

lemma dirty_update_split:
  assumes "F_ISSET page WT_PAGE_REC_MASK = {WT_PAGE_REC_SPLIT}"
    and "\<not> WT_PAGE_IS_ROOT page"
    and "pg_modify page = Some m"
    and "rec_parent_dirty_update E s ptr page fl = Done (ret, s')"
  shows "ret = discard_ret E (discard_order page)
         \<and> s' = freed (discard_done E (discard_order page))
                  (put_ref s ptr
                     (Ref WT_REF_MEM (write_split m) (ref_addr (get_ref s ptr))
                        (ref_size (get_ref s ptr))))"
proof -
  from assms have "dirty_discard E
      (put_ref s ptr
         (Ref WT_REF_MEM (write_split m) (ref_addr (get_ref s ptr)) (ref_size (get_ref s ptr))))
      page = Done (ret, s')"
    by (simp add: rec_parent_dirty_update_def Let_def)
  then show ?thesis by (rule dirty_discard_trace)
qed

lemma dirty_update_split_root:
  assumes "F_ISSET page WT_PAGE_REC_MASK = {WT_PAGE_REC_SPLIT}"
    and "WT_PAGE_IS_ROOT page"
    and "pg_modify page = Some m"
    and "rec_root_split E s (write_split m) = Done (r1, s5)"
    and "rec_parent_dirty_update E s ptr page fl = Done (ret, s')"
  shows "(r1 \<noteq> 0 \<longrightarrow> ret = r1 \<and> s' = s5)
         \<and> (r1 = 0 \<longrightarrow>
              ret = discard_ret E (discard_order page)
              \<and> s' = freed (discard_done E (discard_order page))
                       (put_ref s5 ptr
                          (Ref WT_REF_DISK (ref_page (get_ref s5 ptr))
                             (ref_addr (get_ref s5 ptr)) (ref_size (get_ref s5 ptr)))))"
proof (cases "r1 = 0")
  case False
  with assms show ?thesis by (simp add: rec_parent_dirty_update_def Let_def)
next
  case True
  with assms have "dirty_discard E
      (put_ref s5 ptr
         (Ref WT_REF_DISK (ref_page (get_ref s5 ptr)) (ref_addr (get_ref s5 ptr))
            (ref_size (get_ref s5 ptr))))
      page = Done (ret, s')"
    by (simp add: rec_parent_dirty_update_def Let_def set_state_def)
  from dirty_discard_trace [OF this] True show ?thesis by simp
qed


section \<open>The driver after a successful review\<close>

lemma evict_write_stages:
  assumes "ref_page (get_ref s ptr) = Some page"
  shows "evict_write E s ptr flags =
           (if write_ret E page \<noteq> 0
            then evict_err E (written_session E s ptr page) ptr flags (write_ret E page)
            else evict_update E (written_session E s ptr page) ptr (written_page E page) flags)"
  using assms
  by (simp add: evict_write_def write_ret_def written_page_def written_session_def
        wt_rec_write_def case_prod_beta)

lemma written_session_cell:
  assumes "ref_page (get_ref s ptr) = Some page"
  shows "get_ref (written_session E s ptr page) ptr =
           Ref (ref_state (get_ref s ptr)) (Some (written_page E page))
             (ref_addr (get_ref s ptr)) (ref_size (get_ref s ptr))"
  using assms
  by (cases "get_ref s ptr") (simp add: written_session_def written_page_def set_page_def)

lemma written_session_pages [simp]:
  "pages_out (written_session E s ptr page) = pages_out s"
  by (simp add: written_session_def)

lemma review_walk_ok_state:
  assumes "review_walk E s ptr r page lp flags = Done (0, s')" and "get_ref s ptr = r"
  shows "ref_state (get_ref s' ptr) = ref_state r"
proof (cases "pg_type page = WT_PAGE_COL_INT \<or> pg_type page = WT_PAGE_ROW_INT")
  case False
  with assms show ?thesis by (cases "pg_type page") (simp_all add: review_walk_def)
next
  case True
  define ty where "ty = pg_type page"
  let ?x = "rec_sub_excl ty E s (pg_refs page) lp flags"
  from True assms(1) have "review_store E ptr r page flags ?x = Done (0, s')"
    by (auto simp: review_walk_def rec_sub_excl_col_def rec_sub_excl_row_def ty_def)
  then show ?thesis
    by (auto simp: review_store_def Let_def set_page_def
          split: option.splits sum.splits if_splits)
qed

lemma review_ok_locked:
  assumes "rec_review E s ptr flags = Done (0, s')" and "WT_REC_SINGLE \<notin> flags"
  shows "ref_state (get_ref s' ptr) = WT_REF_LOCKED"
proof -
  from assms obtain page where page: "ref_page (get_ref s ptr) = Some page"
    by (auto simp: rec_review_def split: option.splits)
  with assms obtain ret1 s1 r1 where
    hz: "hazard_exclusive E s (get_ref s ptr) (WT_REC_WAIT \<in> flags) = Done (ret1, s1, r1)"
    by (auto simp: rec_review_def split: option.splits sum.splits)
  with assms page have r1: "ret1 = 0"
    and w: "review_walk E (put_ref s1 ptr r1) ptr r1 page (Some (pg_id page)) flags = Done (0, s')"
    by (auto simp: rec_review_def split: if_splits)
  from review_walk_ok_state [OF w] hazard_exclusive_frame(5) [OF hz r1] show ?thesis by simp
qed



lemma pg_id_written_page [simp]: "pg_id (written_page E page) = pg_id page"
  by (simp add: written_page_def)

lemma written_cell_step:
  assumes "ref_page (get_ref s ptr) = Some page"
  shows "cell_step ptr s (written_session E s ptr page)"
  using assms
  by (auto simp: written_session_def set_page_def page_ptr_def intro!: cell_step_put)

lemma reviewed_step:
  assumes "ref_page (get_ref s ptr) = Some page"
    and "rec_review E (evict_force s ptr page) ptr fl = Done (ret, s2)"
  shows "cell_step ptr s s2"
  using cell_step_force [OF assms(1)] rec_review_step [OF assms(2)]
  by (blast intro: cell_step_trans)

lemma evict_after_review:
  assumes "ref_page (get_ref s ptr) = Some page"
    and "WT_PAGE_REC_SPLIT_MERGE \<notin> pg_flags page"
    and "rec_review E (evict_force s ptr page) ptr (evict_flags page flags) = Done (0, s2)"
    and "ref_page (get_ref s2 ptr) = Some page2"
  shows "wt_rec_evict E s ptr flags =
           (if write_ret E page2 \<noteq> 0
            then evict_err E (written_session E s2 ptr page2) ptr (evict_flags page flags)
                   (write_ret E page2)
            else evict_update E (written_session E s2 ptr page2) ptr (written_page E page2)
                   (evict_flags page flags))"
proof -
  have "wt_rec_evict E s ptr flags = evict_write E s2 ptr (evict_flags page flags)"
    using assms(1-3) by (simp add: wt_rec_evict_def F_ISSET_def)
  with evict_write_stages [OF assms(4)] show ?thesis by simp
qed

lemma evict_update_clean:
  assumes "F_ISSET page WT_PAGE_REC_MASK = {}"
  shows "evict_update E s ptr page flags =
           Done (rec_discard_page E
                   (put_ref (s\<lparr>stat_cache_evict_unmodified :=
                                   Suc (stat_cache_evict_unmodified s)\<rparr>)
                      ptr
                      (Ref WT_REF_DISK None (ref_addr (get_ref s ptr)) (ref_size (get_ref s ptr))))
                   page)"
proof -
  have get4: "get_ref (s0\<lparr>stat_cache_evict_unmodified := n\<rparr>) q = get_ref s0 q" for s0 n q
    by (cases q) (simp_all add: get_ref_def)
  have put4: "put_ref (put_ref s0 ptr r0) ptr r1 = put_ref s0 ptr r1" for s0 r0 r1
    by (cases ptr) (simp_all add: put_ref_def)
  from assms show ?thesis
    by (simp add: evict_update_def rec_parent_clean_update_def Let_def set_page_def
          set_state_def get4 put4)
qed

lemma evict_update_dirty:
  assumes "F_ISSET page WT_PAGE_REC_MASK \<noteq> {}"
  shows "evict_update E s ptr page flags =
           rec_parent_dirty_update E
             (s\<lparr>stat_cache_evict_modified := Suc (stat_cache_evict_modified s)\<rparr>)
             ptr page flags"
  using assms by (simp add: evict_update_def)

section \<open>Clean eviction\<close>

lemma evict_clean_path:
  assumes page: "ref_page (get_ref s ptr) = Some page"
    and ev: "wt_rec_evict E s ptr flags = Done (ret, s')"
    and clean: "stat_cache_evict_unmodified s' \<noteq> stat_cache_evict_unmodified s"
  shows "get_ref s' ptr = Ref WT_REF_DISK None (ref_addr (get_ref s ptr)) (ref_size (get_ref s ptr))"
    and "pages_out s' = (if ret = 0 then pages_out s @ [pg_id page] else pages_out s)"
    and "ret \<noteq> 0 \<longrightarrow> (\<exists>p. pg_id p = pg_id page \<and> ret = rec_track_discard E p)"
proof -
  have nm: "F_ISSET page {WT_PAGE_REC_SPLIT_MERGE} = {}"
  proof (rule ccontr)
    assume "F_ISSET page {WT_PAGE_REC_SPLIT_MERGE} \<noteq> {}"
    with page ev have "s' = put_ref s ptr
        (Ref WT_REF_MEM (Some (set_read_gen (wt_cache_read_gen s) page))
           (ref_addr (get_ref s ptr)) (ref_size (get_ref s ptr)))"
      by (simp add: wt_rec_evict_def)
    with clean show False by simp
  qed
  let ?s1 = "evict_force s ptr page" and ?fl = "evict_flags page flags"
  from page ev nm obtain ret2 s2 where rv: "rec_review E ?s1 ptr ?fl = Done (ret2, s2)"
    by (auto simp: wt_rec_evict_def split: option.splits sum.splits)
  have step2: "cell_step ptr s s2"
    using cell_step_force [OF page] rec_review_step [OF rv] by (blast intro: cell_step_trans)
  have ret2: "ret2 = 0"
  proof (rule ccontr)
    assume "ret2 \<noteq> 0"
    with page ev nm rv have "s' = s2" by (simp add: wt_rec_evict_def)
    with step2 clean show False by (simp add: cell_step_def)
  qed
  with page ev nm rv have ew: "evict_write E s2 ptr ?fl = Done (ret, s')"
    by (simp add: wt_rec_evict_def)
  from step2 page obtain page2 where page2: "ref_page (get_ref s2 ptr) = Some page2"
    and id2: "pg_id page2 = pg_id page"
    by (auto simp: cell_step_def page_ptr_def)
  define page3 where "page3 = (if page_is_modified E page2 then snd (wt_rec_write E page2) else page2)"
  define s3 where "s3 = (if page_is_modified E page2
                         then put_ref s2 ptr (set_page (Some page3) (get_ref s2 ptr)) else s2)"
  have id3: "pg_id page3 = pg_id page" by (simp add: page3_def id2)
  have step3: "cell_step ptr s s3"
  proof -
    have "cell_step ptr s2 s3"
      by (auto simp: s3_def set_page_def page_ptr_def page2 id3 id2 intro!: cell_step_put)
    with step2 show ?thesis by (blast intro: cell_step_trans)
  qed
  have up: "evict_update E s3 ptr page3 ?fl = Done (ret, s')"
  proof (cases "page_is_modified E page2")
    case False
    with ew page2 show ?thesis by (simp add: evict_write_def page3_def s3_def)
  next
    case True
    show ?thesis
    proof (cases "fst (wt_rec_write E page2) = 0")
      case ok: True
      with ew page2 True show ?thesis
        by (simp add: evict_write_def page3_def s3_def case_prod_beta)
    next
      case False
      with ew page2 True have "evict_err E s3 ptr ?fl (fst (wt_rec_write E page2)) = Done (ret, s')"
        by (simp add: evict_write_def page3_def s3_def case_prod_beta)
      from evict_err_stat [OF this] step3 clean show ?thesis by (simp add: cell_step_def)
    qed
  qed
  have fl: "F_ISSET page3 WT_PAGE_REC_MASK = {}"
  proof (rule ccontr)
    assume "F_ISSET page3 WT_PAGE_REC_MASK \<noteq> {}"
    with up have "rec_parent_dirty_update E
                    (s3\<lparr>stat_cache_evict_modified := Suc (stat_cache_evict_modified s3)\<rparr>)
                    ptr page3 ?fl = Done (ret, s')"
      by (simp add: evict_update_def)
    from rec_parent_dirty_update_stat [OF this] step3 clean show False
      by (simp add: cell_step_def)
  qed
  let ?s4 = "put_ref (s3\<lparr>stat_cache_evict_unmodified := Suc (stat_cache_evict_unmodified s3)\<rparr>)
               ptr (Ref WT_REF_DISK None (ref_addr (get_ref s3 ptr)) (ref_size (get_ref s3 ptr)))"
  have get4: "get_ref (s3\<lparr>stat_cache_evict_unmodified := n\<rparr>) q = get_ref s3 q" for n q
    by (cases q) (simp_all add: get_ref_def)
  have put4: "put_ref (put_ref s0 ptr r0) ptr r1 = put_ref s0 ptr r1" for s0 r0 r1
    by (cases ptr) (simp_all add: put_ref_def)
  from up fl have d: "rec_discard_page E ?s4 page3 = (ret, s')"
    by (simp add: evict_update_def rec_parent_clean_update_def Let_def set_page_def
          set_state_def get4 put4)
  have a4: "ref_addr (get_ref s3 ptr) = ref_addr (get_ref s ptr)"
    "ref_size (get_ref s3 ptr) = ref_size (get_ref s ptr)" "pages_out s3 = pages_out s"
    using step3 by (simp_all add: cell_step_def)
  show "get_ref s' ptr = Ref WT_REF_DISK None (ref_addr (get_ref s ptr)) (ref_size (get_ref s ptr))"
    using rec_discard_page_cases [of E ?s4 page3] d a4 by auto
  show "pages_out s' = (if ret = 0 then pages_out s @ [pg_id page] else pages_out s)"
    using rec_discard_page_cases [of E ?s4 page3] d a4 id3 by auto
  show "ret \<noteq> 0 \<longrightarrow> (\<exists>p. pg_id p = pg_id page \<and> ret = rec_track_discard E p)"
    using rec_discard_page_cases [of E ?s4 page3] d id3 by auto
qed

text \<open>
  C8. When \<open>__wt_rec_evict\<close> returns 0 on the clean path, the parent slot ends in state
  DISK with a null page, its address and size are what they were before the call, and
  the page has been discarded. The clean path is named twice: by its effect, the
  eviction counted in \<open>cache_evict_unmodified\<close>, and by its cause, a page that is not a
  merge-split page, whose review and write both returned 0 and which carries no REC flag
  afterwards.
\<close>

theorem clean_eviction_parent_ref:
  assumes page: "ref_page (get_ref s ptr) = Some page"
    and ev: "wt_rec_evict E s ptr flags = Done (0, s')"
  shows "(stat_cache_evict_unmodified s' = Suc (stat_cache_evict_unmodified s) \<longrightarrow>
            get_ref s' ptr =
              Ref WT_REF_DISK None (ref_addr (get_ref s ptr)) (ref_size (get_ref s ptr))
            \<and> pages_out s' = pages_out s @ [pg_id page])
       \<and> (WT_PAGE_REC_SPLIT_MERGE \<notin> pg_flags page
            \<and> rec_review E (evict_force s ptr page) ptr (evict_flags page flags) = Done (0, s2)
            \<and> ref_page (get_ref s2 ptr) = Some page2
            \<and> write_ret E page2 = 0
            \<and> F_ISSET (written_page E page2) WT_PAGE_REC_MASK = {} \<longrightarrow>
            get_ref s' ptr =
              Ref WT_REF_DISK None (ref_addr (get_ref s ptr)) (ref_size (get_ref s ptr))
            \<and> pages_out s' = pages_out s @ [pg_id page])"
proof -
  have counted: "get_ref s' ptr =
              Ref WT_REF_DISK None (ref_addr (get_ref s ptr)) (ref_size (get_ref s ptr))
            \<and> pages_out s' = pages_out s @ [pg_id page]"
    if "stat_cache_evict_unmodified s' = Suc (stat_cache_evict_unmodified s)"
  proof -
    from that have "stat_cache_evict_unmodified s' \<noteq> stat_cache_evict_unmodified s" by simp
    from evict_clean_path(1,2) [OF page ev this] show ?thesis by simp
  qed
  have staged: "stat_cache_evict_unmodified s' = Suc (stat_cache_evict_unmodified s)"
    if h: "WT_PAGE_REC_SPLIT_MERGE \<notin> pg_flags page
            \<and> rec_review E (evict_force s ptr page) ptr (evict_flags page flags) = Done (0, s2)
            \<and> ref_page (get_ref s2 ptr) = Some page2
            \<and> write_ret E page2 = 0
            \<and> F_ISSET (written_page E page2) WT_PAGE_REC_MASK = {}"
  proof -
    let ?s3 = "written_session E s2 ptr page2"
    let ?s4 = "put_ref (?s3\<lparr>stat_cache_evict_unmodified :=
                             Suc (stat_cache_evict_unmodified ?s3)\<rparr>)
                 ptr (Ref WT_REF_DISK None (ref_addr (get_ref ?s3 ptr))
                        (ref_size (get_ref ?s3 ptr)))"
    from h have rv: "rec_review E (evict_force s ptr page) ptr (evict_flags page flags)
                       = Done (0, s2)"
      and p2: "ref_page (get_ref s2 ptr) = Some page2" by simp_all
    from evict_after_review [OF page _ rv p2] h evict_update_clean [of "written_page E page2"]
    have "wt_rec_evict E s ptr flags = Done (rec_discard_page E ?s4 (written_page E page2))"
      by simp
    with ev have d: "rec_discard_page E ?s4 (written_page E page2) = (0, s')" by simp
    have "cell_step ptr s ?s3"
      using reviewed_step [OF page rv] written_cell_step [OF p2]
      by (blast intro: cell_step_trans)
    then have "stat_cache_evict_unmodified ?s3 = stat_cache_evict_unmodified s"
      by (simp add: cell_step_def)
    with rec_discard_page_ok [OF d] show ?thesis by simp
  qed
  from counted staged show ?thesis by blast
qed

theorem clean_eviction_parent_ref_witness:
  "wt_rec_evict env_quiet (session0 (Ref WT_REF_MEM (Some plain8) 66 4096)) Parent_slot {}
     = Done (0, session0 (Ref WT_REF_DISK None 66 4096)
                  \<lparr>hazard_reads := 1, pages_out := [8], stat_cache_evict_unmodified := 1\<rparr>)
   \<and> get_ref (session0 (Ref WT_REF_DISK None 66 4096)
                  \<lparr>hazard_reads := 1, pages_out := [8], stat_cache_evict_unmodified := 1\<rparr>)
        Parent_slot = Ref WT_REF_DISK None 66 4096"
proof -
  let ?s = "session0 (Ref WT_REF_MEM (Some plain8) 66 4096)"
  let ?s' = "session0 (Ref WT_REF_DISK None 66 4096)
               \<lparr>hazard_reads := 1, pages_out := [8], stat_cache_evict_unmodified := 1\<rparr>"
  have page: "ref_page (get_ref ?s Parent_slot) = Some plain8"
    by (simp add: get_ref_def session0_def)
  have ev: "wt_rec_evict env_quiet ?s Parent_slot {} = Done (0, ?s')"
    by code_simp
  have st: "stat_cache_evict_unmodified ?s' = Suc (stat_cache_evict_unmodified ?s)"
    by (simp add: session0_def)
  from clean_eviction_parent_ref [OF page ev, THEN conjunct1, THEN mp, OF st] ev
  show ?thesis
    by (simp add: get_ref_def session0_def)
qed

section \<open>Parent update of an empty page\<close>

lemma rec_sub_excl_clear_single:
  "WT_REC_SINGLE \<in> flags \<Longrightarrow> rec_sub_excl_clear E s ptr lp flags = Done s"
  by (simp add: rec_sub_excl_clear_def)


text \<open>
  \<open>__rec_parent_dirty_update\<close> on a page whose reconciliation left it empty. Not the
  root: every return is 0, nothing is discarded, the parent slot keeps address, size and
  page, and is back in MEM unless the caller has the tree to itself, in which case
  nothing changes at all; when the slots below the page are the locked ones the unlock
  walk expects, the call returns 0 with every one of them back in MEM; and a call of
  \<open>__wt_rec_evict\<close> whose review and write returned 0 and left this page returns 0 with
  nothing discarded and the page still in the parent slot. The root: the parent slot gets
  the invalid address, a null page and state DISK, and when the call returns 0 the merged
  descendants and then the page itself have been discarded.
\<close>

lemma parent_dirty_update_empty_cases:
  assumes empty: "F_ISSET page WT_PAGE_REC_MASK = {WT_PAGE_REC_EMPTY}"
  shows "(\<not> WT_PAGE_IS_ROOT page \<longrightarrow>
            (\<forall>ret s'. rec_parent_dirty_update E s ptr page flags = Done (ret, s') \<longrightarrow>
               ret = 0 \<and> pages_out s' = pages_out s
               \<and> ref_addr (get_ref s' ptr) = ref_addr (get_ref s ptr)
               \<and> ref_size (get_ref s' ptr) = ref_size (get_ref s ptr)
               \<and> page_ptr (ref_page (get_ref s' ptr)) = page_ptr (ref_page (get_ref s ptr))
               \<and> (WT_REC_SINGLE \<notin> flags \<longrightarrow> ref_state (get_ref s' ptr) = WT_REF_MEM))
          \<and> (WT_REC_SINGLE \<in> flags \<longrightarrow>
               rec_parent_dirty_update E s ptr page flags = Done (0, s))
          \<and> (WT_REC_SINGLE \<notin> flags \<and> get_ref s ptr = Ref WT_REF_LOCKED (Some page) a sz
               \<and> locked_below page \<longrightarrow>
               rec_parent_dirty_update E s ptr page flags =
                 Done (0, put_ref s ptr (Ref WT_REF_MEM (Some (release_below page)) a sz)))
          \<and> (\<forall>s0 page0 flags0 s2 page2 ret s'.
               ref_page (get_ref s0 ptr) = Some page0
               \<and> WT_PAGE_REC_SPLIT_MERGE \<notin> pg_flags page0
               \<and> rec_review E (evict_force s0 ptr page0) ptr (evict_flags page0 flags0)
                   = Done (0, s2)
               \<and> ref_page (get_ref s2 ptr) = Some page2
               \<and> write_ret E page2 = 0 \<and> written_page E page2 = page
               \<and> wt_rec_evict E s0 ptr flags0 = Done (ret, s') \<longrightarrow>
               ret = 0 \<and> pages_out s' = pages_out s0
               \<and> ref_addr (get_ref s' ptr) = ref_addr (get_ref s0 ptr)
               \<and> ref_size (get_ref s' ptr) = ref_size (get_ref s0 ptr)
               \<and> page_ptr (ref_page (get_ref s' ptr)) = Some (pg_id page0)))
       \<and> (WT_PAGE_IS_ROOT page \<longrightarrow>
            (\<forall>ret s'. rec_parent_dirty_update E s ptr page flags = Done (ret, s') \<longrightarrow>
               get_ref s' ptr =
                 Ref WT_REF_DISK None (addr_invalid E) (ref_size (get_ref s ptr))
               \<and> (ret = 0 \<longrightarrow> pages_out s' = pages_out s @ merged_pages page @ [pg_id page])))"
proof -
  have frame: "ret = 0 \<and> pages_out s' = pages_out sa
               \<and> ref_addr (get_ref s' ptr) = ref_addr (get_ref sa ptr)
               \<and> ref_size (get_ref s' ptr) = ref_size (get_ref sa ptr)
               \<and> page_ptr (ref_page (get_ref s' ptr)) = page_ptr (ref_page (get_ref sa ptr))
               \<and> (WT_REC_SINGLE \<notin> fl \<longrightarrow> ref_state (get_ref s' ptr) = WT_REF_MEM)"
    if nr: "\<not> WT_PAGE_IS_ROOT page"
      and d: "rec_parent_dirty_update E sa ptr page fl = Done (ret, s')"
    for sa fl ret s'
  proof -
    from d empty nr have c: "rec_sub_excl_clear E sa ptr None fl = Done s'" and r: "ret = 0"
      by (auto simp: rec_parent_dirty_update_def Let_def split: option.splits sum.splits)
    from rec_sub_excl_clear_frame [OF c] obtain r' where
      "s' = put_ref sa ptr r'" "ref_addr r' = ref_addr (get_ref sa ptr)"
      "ref_size r' = ref_size (get_ref sa ptr)"
      "page_ptr (ref_page r') = page_ptr (ref_page (get_ref sa ptr))"
      "WT_REC_SINGLE \<notin> fl \<longrightarrow> ref_state r' = WT_REF_MEM"
      by blast
    with r show ?thesis by simp
  qed
  have unfold: "rec_parent_dirty_update E s ptr page flags =
      (case rec_sub_excl_clear E s ptr None flags of
         None \<Rightarrow> None | Some (Inl f) \<Rightarrow> Fault f | Some (Inr s1) \<Rightarrow> Done (0, s1))"
    if "\<not> WT_PAGE_IS_ROOT page"
    using empty that by (simp add: rec_parent_dirty_update_def Let_def)
  have single: "rec_parent_dirty_update E s ptr page flags = Done (0, s)"
    if "\<not> WT_PAGE_IS_ROOT page" "WT_REC_SINGLE \<in> flags"
    using that by (simp add: unfold rec_sub_excl_clear_single)
  have locked: "rec_parent_dirty_update E s ptr page flags =
          Done (0, put_ref s ptr (Ref WT_REF_MEM (Some (release_below page)) a sz))"
    if "\<not> WT_PAGE_IS_ROOT page"
      "WT_REC_SINGLE \<notin> flags \<and> get_ref s ptr = Ref WT_REF_LOCKED (Some page) a sz
        \<and> locked_below page"
    using that by (simp add: unfold rec_sub_excl_clear_locked)
  have driver: "ret = 0 \<and> pages_out s' = pages_out s0
               \<and> ref_addr (get_ref s' ptr) = ref_addr (get_ref s0 ptr)
               \<and> ref_size (get_ref s' ptr) = ref_size (get_ref s0 ptr)
               \<and> page_ptr (ref_page (get_ref s' ptr)) = Some (pg_id page0)"
    if nr: "\<not> WT_PAGE_IS_ROOT page"
      and h: "ref_page (get_ref s0 ptr) = Some page0
               \<and> WT_PAGE_REC_SPLIT_MERGE \<notin> pg_flags page0
               \<and> rec_review E (evict_force s0 ptr page0) ptr (evict_flags page0 flags0)
                   = Done (0, s2)
               \<and> ref_page (get_ref s2 ptr) = Some page2
               \<and> write_ret E page2 = 0 \<and> written_page E page2 = page
               \<and> wt_rec_evict E s0 ptr flags0 = Done (ret, s')"
    for s0 page0 flags0 s2 page2 ret s'
  proof -
    let ?s3 = "written_session E s2 ptr page2"
    let ?s4 = "?s3\<lparr>stat_cache_evict_modified := Suc (stat_cache_evict_modified ?s3)\<rparr>"
    from h have p0: "ref_page (get_ref s0 ptr) = Some page0"
      and nm: "WT_PAGE_REC_SPLIT_MERGE \<notin> pg_flags page0"
      and rv: "rec_review E (evict_force s0 ptr page0) ptr (evict_flags page0 flags0)
                 = Done (0, s2)"
      and p2: "ref_page (get_ref s2 ptr) = Some page2"
      and w: "write_ret E page2 = 0" "written_page E page2 = page"
      and ev: "wt_rec_evict E s0 ptr flags0 = Done (ret, s')"
      by simp_all
    have ne: "F_ISSET page WT_PAGE_REC_MASK \<noteq> {}" using empty by simp
    from evict_after_review [OF p0 nm rv p2] w evict_update_dirty [OF ne] ev
    have d: "rec_parent_dirty_update E ?s4 ptr page (evict_flags page0 flags0) = Done (ret, s')"
      by simp
    have step: "cell_step ptr s0 ?s3"
      using reviewed_step [OF p0 rv] written_cell_step [OF p2]
      by (blast intro: cell_step_trans)
    have get4: "get_ref ?s4 q = get_ref ?s3 q" for q
      by (cases q) (simp_all add: get_ref_def)
    from frame [OF nr d] step p0 show ?thesis
      by (simp add: get4 cell_step_def page_ptr_def)
  qed
  have root: "get_ref s' ptr = Ref WT_REF_DISK None (addr_invalid E) (ref_size (get_ref s ptr))
               \<and> (ret = 0 \<longrightarrow> pages_out s' = pages_out s @ merged_pages page @ [pg_id page])"
    if rt: "WT_PAGE_IS_ROOT page"
      and d: "rec_parent_dirty_update E s ptr page flags = Done (ret, s')"
    for ret s'
  proof -
    let ?s1 = "put_ref s ptr (Ref WT_REF_DISK None (addr_invalid E) (ref_size (get_ref s ptr)))"
    from d empty rt have dd: "dirty_discard E ?s1 page = Done (ret, s')"
      by (simp add: rec_parent_dirty_update_def Let_def)
    from dirty_discard_pages(1) [OF dd]
    have "get_ref s' ptr = Ref WT_REF_DISK None (addr_invalid E) (ref_size (get_ref s ptr))"
      by auto
    moreover have "pages_out s' = pages_out s @ merged_pages page @ [pg_id page]" if "ret = 0"
      using dirty_discard_pages(2) [OF dd that] by simp
    ultimately show ?thesis by simp
  qed
  show ?thesis
  proof (rule conjI; rule impI)
    assume nr: "\<not> WT_PAGE_IS_ROOT page"
    from frame [OF nr, of s flags] single [OF nr] locked [OF nr] driver [OF nr]
    show "(\<forall>ret s'. rec_parent_dirty_update E s ptr page flags = Done (ret, s') \<longrightarrow>
               ret = 0 \<and> pages_out s' = pages_out s
               \<and> ref_addr (get_ref s' ptr) = ref_addr (get_ref s ptr)
               \<and> ref_size (get_ref s' ptr) = ref_size (get_ref s ptr)
               \<and> page_ptr (ref_page (get_ref s' ptr)) = page_ptr (ref_page (get_ref s ptr))
               \<and> (WT_REC_SINGLE \<notin> flags \<longrightarrow> ref_state (get_ref s' ptr) = WT_REF_MEM))
          \<and> (WT_REC_SINGLE \<in> flags \<longrightarrow>
               rec_parent_dirty_update E s ptr page flags = Done (0, s))
          \<and> (WT_REC_SINGLE \<notin> flags \<and> get_ref s ptr = Ref WT_REF_LOCKED (Some page) a sz
               \<and> locked_below page \<longrightarrow>
               rec_parent_dirty_update E s ptr page flags =
                 Done (0, put_ref s ptr (Ref WT_REF_MEM (Some (release_below page)) a sz)))
          \<and> (\<forall>s0 page0 flags0 s2 page2 ret s'.
               ref_page (get_ref s0 ptr) = Some page0
               \<and> WT_PAGE_REC_SPLIT_MERGE \<notin> pg_flags page0
               \<and> rec_review E (evict_force s0 ptr page0) ptr (evict_flags page0 flags0)
                   = Done (0, s2)
               \<and> ref_page (get_ref s2 ptr) = Some page2
               \<and> write_ret E page2 = 0 \<and> written_page E page2 = page
               \<and> wt_rec_evict E s0 ptr flags0 = Done (ret, s') \<longrightarrow>
               ret = 0 \<and> pages_out s' = pages_out s0
               \<and> ref_addr (get_ref s' ptr) = ref_addr (get_ref s0 ptr)
               \<and> ref_size (get_ref s' ptr) = ref_size (get_ref s0 ptr)
               \<and> page_ptr (ref_page (get_ref s' ptr)) = Some (pg_id page0))"
      by (intro conjI allI impI) blast+
  next
    assume rt: "WT_PAGE_IS_ROOT page"
    from root [OF rt]
    show "\<forall>ret s'. rec_parent_dirty_update E s ptr page flags = Done (ret, s') \<longrightarrow>
               get_ref s' ptr =
                 Ref WT_REF_DISK None (addr_invalid E) (ref_size (get_ref s ptr))
               \<and> (ret = 0 \<longrightarrow> pages_out s' = pages_out s @ merged_pages page @ [pg_id page])"
      by blast
  qed
qed

lemma parent_dirty_update_empty_example:
  "rec_parent_dirty_update env_quiet
     (session0 (Ref WT_REF_LOCKED (Some (empty_parent (Some 0) WT_REF_LOCKED)) 7 8))
     Parent_slot (empty_parent (Some 0) WT_REF_LOCKED) {}
   = Done (0, session0 (Ref WT_REF_MEM (Some (empty_parent (Some 0) WT_REF_MEM)) 7 8))
   \<and> rec_parent_dirty_update env_quiet
     (session0 (Ref WT_REF_DISK None 0 0)
        \<lparr>root_page := Ref WT_REF_LOCKED (Some (empty_parent None WT_REF_LOCKED)) 7 8\<rparr>)
     Btree_root_page (empty_parent None WT_REF_LOCKED) {}
   = Done (0, session0 (Ref WT_REF_DISK None 0 0)
                \<lparr>root_page := Ref WT_REF_DISK None (- 1) 8, pages_out := [2, 1]\<rparr>)"
proof -
  let ?p = "empty_parent (Some 0) WT_REF_LOCKED"
  let ?s = "session0 (Ref WT_REF_LOCKED (Some ?p) 7 8)"
  have e: "F_ISSET ?p WT_PAGE_REC_MASK = {WT_PAGE_REC_EMPTY}"
    by (simp add: F_ISSET_def empty_parent_def WT_PAGE_REC_MASK_def)
  have nr: "\<not> WT_PAGE_IS_ROOT ?p"
    by (simp add: WT_PAGE_IS_ROOT_def empty_parent_def)
  have h: "WT_REC_SINGLE \<notin> {} \<and> get_ref ?s Parent_slot = Ref WT_REF_LOCKED (Some ?p) 7 8
           \<and> locked_below ?p"
    by (simp add: get_ref_def session0_def locked_below_def empty_parent_def empty2_def)
  have rel: "release_below ?p = empty_parent (Some 0) WT_REF_MEM"
    by (simp add: release_below_def empty_parent_def empty2_def set_refs_def)
  have first: "rec_parent_dirty_update env_quiet ?s Parent_slot ?p {}
                 = Done (0, session0 (Ref WT_REF_MEM (Some (empty_parent (Some 0) WT_REF_MEM)) 7 8))"
    using parent_dirty_update_empty_cases [OF e, of env_quiet ?s Parent_slot "{}" 7 8] nr h
    by (simp add: rel put_ref_def session0_def)
  have second: "rec_parent_dirty_update env_quiet
     (session0 (Ref WT_REF_DISK None 0 0)
        \<lparr>root_page := Ref WT_REF_LOCKED (Some (empty_parent None WT_REF_LOCKED)) 7 8\<rparr>)
     Btree_root_page (empty_parent None WT_REF_LOCKED) {}
   = Done (0, session0 (Ref WT_REF_DISK None 0 0)
                \<lparr>root_page := Ref WT_REF_DISK None (- 1) 8, pages_out := [2, 1]\<rparr>)"
    by code_simp
  from first second show ?thesis by simp
qed




section \<open>Errors of the write and of the discard\<close>

text \<open>
  C9, as the code has it. After a successful review, with \<open>page2\<close> the page in the slot.
  An error of \<open>__wt_rec_write\<close> is what \<open>__wt_rec_evict\<close> returns, after the unlock from
  the page with no watermark: nothing is discarded, the parent slot is back in MEM, and
  when the slots below are the locked ones the walk expects, all of them are. When the
  write succeeds or is not needed, no unlock is run. On the clean path a failing
  tracked-object discard of the page is what \<open>__wt_rec_evict\<close> returns, the parent slot
  staying DISK with a null page and its old address and size, the page not freed. On the
  dirty path \<open>__wt_rec_evict\<close> returns what \<open>__rec_parent_dirty_update\<close> returns; where
  that function reaches its discards (a replaced page, an empty root, a split page), the
  return is that of the first tracked-object discard that fails among the merged pages
  and the page, in the order of the walk, or 0; the pages before it are freed, and the
  session is otherwise the one the parent update left, the parent slot holding the value
  the update gave it. For a split root the discards come after \<open>__rec_root_split\<close>: an
  error of that loop is returned as it is, with the session as the loop left it, the
  states of both slots untouched, and the error is a return of one of the collaborators
  or the illegal-value code.
\<close>

theorem evict_error_paths:
  assumes page: "ref_page (get_ref s ptr) = Some page"
    and nm: "WT_PAGE_REC_SPLIT_MERGE \<notin> pg_flags page"
    and rv: "rec_review E (evict_force s ptr page) ptr (evict_flags page flags) = Done (0, s2)"
    and p2: "ref_page (get_ref s2 ptr) = Some page2"
  shows "(write_ret E page2 \<noteq> 0 \<longrightarrow>
            (\<forall>ret s'. wt_rec_evict E s ptr flags = Done (ret, s') \<longrightarrow>
               ret = write_ret E page2 \<and> pages_out s' = pages_out s
               \<and> (WT_REC_SINGLE \<notin> evict_flags page flags \<longrightarrow>
                    ref_state (get_ref s' ptr) = WT_REF_MEM))
          \<and> (WT_REC_SINGLE \<notin> evict_flags page flags \<and> locked_below (written_page E page2) \<longrightarrow>
               wt_rec_evict E s ptr flags =
                 Done (write_ret E page2,
                       put_ref (written_session E s2 ptr page2) ptr
                         (Ref WT_REF_MEM (Some (release_below (written_page E page2)))
                            (ref_addr (get_ref s ptr)) (ref_size (get_ref s ptr))))))
       \<and> (write_ret E page2 = 0 \<and> F_ISSET (written_page E page2) WT_PAGE_REC_MASK = {} \<longrightarrow>
            wt_rec_evict E s ptr flags =
              Done (if pg_modify (written_page E page2) \<noteq> None
                       \<and> rec_track_discard E (written_page E page2) \<noteq> 0
                    then (rec_track_discard E (written_page E page2),
                          put_ref
                            ((written_session E s2 ptr page2)
                               \<lparr>stat_cache_evict_unmodified :=
                                  Suc (stat_cache_evict_unmodified s)\<rparr>)
                            ptr
                            (Ref WT_REF_DISK None (ref_addr (get_ref s ptr))
                               (ref_size (get_ref s ptr))))
                    else (0, freed [pg_id page]
                               (put_ref
                                  ((written_session E s2 ptr page2)
                                     \<lparr>stat_cache_evict_unmodified :=
                                        Suc (stat_cache_evict_unmodified s)\<rparr>)
                                  ptr
                                  (Ref WT_REF_DISK None (ref_addr (get_ref s ptr))
                                     (ref_size (get_ref s ptr)))))))
       \<and> (write_ret E page2 = 0 \<and> F_ISSET (written_page E page2) WT_PAGE_REC_MASK \<noteq> {} \<longrightarrow>
            wt_rec_evict E s ptr flags =
              rec_parent_dirty_update E
                ((written_session E s2 ptr page2)
                   \<lparr>stat_cache_evict_modified := Suc (stat_cache_evict_modified s)\<rparr>)
                ptr (written_page E page2) (evict_flags page flags))
       \<and> (write_ret E page2 = 0 \<longrightarrow>
            (\<forall>ret s'. wt_rec_evict E s ptr flags = Done (ret, s') \<longrightarrow>
               (F_ISSET (written_page E page2) WT_PAGE_REC_MASK = {WT_PAGE_REC_REPLACE} \<longrightarrow>
                  (\<forall>m. pg_modify (written_page E page2) = Some m \<longrightarrow>
                     ret = discard_ret E (discard_order (written_page E page2))
                     \<and> s' = freed (discard_done E (discard_order (written_page E page2)))
                              (put_ref
                                 ((written_session E s2 ptr page2)
                                    \<lparr>stat_cache_evict_modified :=
                                       Suc (stat_cache_evict_modified s)\<rparr>)
                                 ptr
                                 (Ref WT_REF_DISK None (write_off_addr m) (write_off_size m)))))
             \<and> (F_ISSET (written_page E page2) WT_PAGE_REC_MASK = {WT_PAGE_REC_EMPTY}
                  \<and> WT_PAGE_IS_ROOT (written_page E page2) \<longrightarrow>
                  ret = discard_ret E (discard_order (written_page E page2))
                  \<and> s' = freed (discard_done E (discard_order (written_page E page2)))
                           (put_ref
                              ((written_session E s2 ptr page2)
                                 \<lparr>stat_cache_evict_modified :=
                                    Suc (stat_cache_evict_modified s)\<rparr>)
                              ptr
                              (Ref WT_REF_DISK None (addr_invalid E)
                                 (ref_size (get_ref s ptr)))))
             \<and> (F_ISSET (written_page E page2) WT_PAGE_REC_MASK = {WT_PAGE_REC_SPLIT}
                  \<and> \<not> WT_PAGE_IS_ROOT (written_page E page2) \<longrightarrow>
                  (\<forall>m. pg_modify (written_page E page2) = Some m \<longrightarrow>
                     ret = discard_ret E (discard_order (written_page E page2))
                     \<and> s' = freed (discard_done E (discard_order (written_page E page2)))
                              (put_ref
                                 ((written_session E s2 ptr page2)
                                    \<lparr>stat_cache_evict_modified :=
                                       Suc (stat_cache_evict_modified s)\<rparr>)
                                 ptr
                                 (Ref WT_REF_MEM (write_split m) (ref_addr (get_ref s ptr))
                                    (ref_size (get_ref s ptr))))))
             \<and> (F_ISSET (written_page E page2) WT_PAGE_REC_MASK = {WT_PAGE_REC_SPLIT}
                  \<and> WT_PAGE_IS_ROOT (written_page E page2) \<longrightarrow>
                  (\<forall>m r1 s5. pg_modify (written_page E page2) = Some m
                     \<and> rec_root_split E
                         ((written_session E s2 ptr page2)
                            \<lparr>stat_cache_evict_modified := Suc (stat_cache_evict_modified s)\<rparr>)
                         (write_split m) = Done (r1, s5) \<longrightarrow>
                     (r1 \<noteq> 0 \<longrightarrow>
                        ret = r1 \<and> s' = s5
                        \<and> parent_slot s5 = parent_slot (written_session E s2 ptr page2)
                        \<and> ref_state (root_page s5)
                            = ref_state (root_page (written_session E s2 ptr page2))
                        \<and> ((\<exists>p. r1 = fst (page_set_modified E p) \<or> r1 = fst (rec_write E p)
                                \<or> (pg_modify p \<noteq> None \<and> r1 = rec_track_discard E p))
                            \<or> r1 = illegal_value E))
                     \<and> (r1 = 0 \<longrightarrow>
                          ret = discard_ret E (discard_order (written_page E page2))
                          \<and> s' = freed (discard_done E (discard_order (written_page E page2)))
                                   (put_ref s5 ptr
                                      (Ref WT_REF_DISK (ref_page (get_ref s5 ptr))
                                         (ref_addr (get_ref s5 ptr))
                                         (ref_size (get_ref s5 ptr)))))))))"
proof -
  let ?fl = "evict_flags page flags"
  let ?s3 = "written_session E s2 ptr page2"
  let ?p3 = "written_page E page2"
  let ?s4 = "?s3\<lparr>stat_cache_evict_modified := Suc (stat_cache_evict_modified s)\<rparr>"
  let ?D = "discard_order ?p3"
  note ev = evict_after_review [OF page nm rv p2]
  note cell = written_session_cell [OF p2, of E]
  have step: "cell_step ptr s ?s3"
    using reviewed_step [OF page rv] written_cell_step [OF p2]
    by (blast intro: cell_step_trans)
  then have same: "stat_cache_evict_unmodified ?s3 = stat_cache_evict_unmodified s"
    "stat_cache_evict_modified ?s3 = stat_cache_evict_modified s"
    "pages_out ?s3 = pages_out s"
    "ref_addr (get_ref ?s3 ptr) = ref_addr (get_ref s ptr)"
    "ref_size (get_ref ?s3 ptr) = ref_size (get_ref s ptr)"
    by (simp_all add: cell_step_def)
  from step page p2 have id: "pg_id page2 = pg_id page"
    using reviewed_step [OF page rv] by (simp add: cell_step_def page_ptr_def)
  have get4: "get_ref ?s4 q = get_ref ?s3 q" for q
    by (cases q) (simp_all add: get_ref_def)
  have s4: "ref_addr (get_ref ?s4 ptr) = ref_addr (get_ref s ptr)"
    "ref_size (get_ref ?s4 ptr) = ref_size (get_ref s ptr)"
    "parent_slot ?s4 = parent_slot ?s3" "root_page ?s4 = root_page ?s3"
    by (simp_all add: get4 same)
  have werr: "ret = write_ret E page2 \<and> pages_out s' = pages_out s
               \<and> (WT_REC_SINGLE \<notin> ?fl \<longrightarrow> ref_state (get_ref s' ptr) = WT_REF_MEM)"
    if e: "write_ret E page2 \<noteq> 0" and d: "wt_rec_evict E s ptr flags = Done (ret, s')"
    for ret s'
  proof -
    from e d have "evict_err E ?s3 ptr ?fl (write_ret E page2) = Done (ret, s')"
      by (simp add: ev)
    then obtain s4 where c: "rec_sub_excl_clear E ?s3 ptr None ?fl = Done s4"
      and r: "ret = write_ret E page2" "s' = s4"
      by (auto simp: evict_err_def split: option.splits sum.splits)
    from rec_sub_excl_clear_frame [OF c] obtain r' where
      r': "s4 = put_ref ?s3 ptr r'" "WT_REC_SINGLE \<notin> ?fl \<longrightarrow> ref_state r' = WT_REF_MEM"
      by blast
    from r r' same show ?thesis by simp
  qed
  have wlocked: "wt_rec_evict E s ptr flags =
            Done (write_ret E page2,
                  put_ref ?s3 ptr
                    (Ref WT_REF_MEM (Some (release_below ?p3))
                       (ref_addr (get_ref s ptr)) (ref_size (get_ref s ptr))))"
    if e: "write_ret E page2 \<noteq> 0"
      and l: "WT_REC_SINGLE \<notin> ?fl \<and> locked_below ?p3"
  proof -
    from review_ok_locked [OF rv] l have "ref_state (get_ref s2 ptr) = WT_REF_LOCKED" by simp
    with cell same have c3: "get_ref ?s3 ptr =
        Ref WT_REF_LOCKED (Some ?p3) (ref_addr (get_ref s ptr)) (ref_size (get_ref s ptr))"
      by simp
    from rec_sub_excl_clear_locked [OF _ c3, of ?fl E] l e
    show ?thesis by (simp add: ev evict_err_def)
  qed
  have clean: "wt_rec_evict E s ptr flags =
              Done (if pg_modify ?p3 \<noteq> None \<and> rec_track_discard E ?p3 \<noteq> 0
                    then (rec_track_discard E ?p3,
                          put_ref (?s3\<lparr>stat_cache_evict_unmodified :=
                                          Suc (stat_cache_evict_unmodified s)\<rparr>)
                            ptr
                            (Ref WT_REF_DISK None (ref_addr (get_ref s ptr))
                               (ref_size (get_ref s ptr))))
                    else (0, freed [pg_id page]
                               (put_ref (?s3\<lparr>stat_cache_evict_unmodified :=
                                               Suc (stat_cache_evict_unmodified s)\<rparr>)
                                  ptr
                                  (Ref WT_REF_DISK None (ref_addr (get_ref s ptr))
                                     (ref_size (get_ref s ptr))))))"
    if "write_ret E page2 = 0 \<and> F_ISSET ?p3 WT_PAGE_REC_MASK = {}"
    using that evict_update_clean [of ?p3 E ?s3 ptr ?fl]
    by (simp add: ev same rec_discard_page_def freed_def id)
  have dirty: "wt_rec_evict E s ptr flags = rec_parent_dirty_update E ?s4 ptr ?p3 ?fl"
    if "write_ret E page2 = 0 \<and> F_ISSET ?p3 WT_PAGE_REC_MASK \<noteq> {}"
    using that evict_update_dirty [of ?p3 E ?s3 ptr ?fl] by (simp add: ev same)
  have replace: "ret = discard_ret E ?D
                 \<and> s' = freed (discard_done E ?D)
                          (put_ref ?s4 ptr
                             (Ref WT_REF_DISK None (write_off_addr m) (write_off_size m)))"
    if "write_ret E page2 = 0" "wt_rec_evict E s ptr flags = Done (ret, s')"
      "F_ISSET ?p3 WT_PAGE_REC_MASK = {WT_PAGE_REC_REPLACE}" "pg_modify ?p3 = Some m"
    for ret s' m
  proof -
    from that dirty have "rec_parent_dirty_update E ?s4 ptr ?p3 ?fl = Done (ret, s')" by simp
    from dirty_update_replace [OF that(3,4) this] show ?thesis .
  qed
  have empty_root: "ret = discard_ret E ?D
                 \<and> s' = freed (discard_done E ?D)
                          (put_ref ?s4 ptr
                             (Ref WT_REF_DISK None (addr_invalid E) (ref_size (get_ref s ptr))))"
    if "write_ret E page2 = 0" "wt_rec_evict E s ptr flags = Done (ret, s')"
      "F_ISSET ?p3 WT_PAGE_REC_MASK = {WT_PAGE_REC_EMPTY} \<and> WT_PAGE_IS_ROOT ?p3"
    for ret s'
  proof -
    from that dirty have "rec_parent_dirty_update E ?s4 ptr ?p3 ?fl = Done (ret, s')" by simp
    from dirty_update_empty_root [OF _ _ this] that(3) show ?thesis by (simp add: s4)
  qed
  have split: "ret = discard_ret E ?D
                 \<and> s' = freed (discard_done E ?D)
                          (put_ref ?s4 ptr
                             (Ref WT_REF_MEM (write_split m) (ref_addr (get_ref s ptr))
                                (ref_size (get_ref s ptr))))"
    if "write_ret E page2 = 0" "wt_rec_evict E s ptr flags = Done (ret, s')"
      "F_ISSET ?p3 WT_PAGE_REC_MASK = {WT_PAGE_REC_SPLIT} \<and> \<not> WT_PAGE_IS_ROOT ?p3"
      "pg_modify ?p3 = Some m"
    for ret s' m
  proof -
    from that dirty have "rec_parent_dirty_update E ?s4 ptr ?p3 ?fl = Done (ret, s')" by simp
    from dirty_update_split [OF _ _ that(4) this] that(3) show ?thesis by (simp add: s4)
  qed
  have split_root:
    "(r1 \<noteq> 0 \<longrightarrow>
        ret = r1 \<and> s' = s5
        \<and> parent_slot s5 = parent_slot ?s3
        \<and> ref_state (root_page s5) = ref_state (root_page ?s3)
        \<and> ((\<exists>p. r1 = fst (page_set_modified E p) \<or> r1 = fst (rec_write E p)
                \<or> (pg_modify p \<noteq> None \<and> r1 = rec_track_discard E p))
            \<or> r1 = illegal_value E))
     \<and> (r1 = 0 \<longrightarrow>
          ret = discard_ret E ?D
          \<and> s' = freed (discard_done E ?D)
                   (put_ref s5 ptr
                      (Ref WT_REF_DISK (ref_page (get_ref s5 ptr))
                         (ref_addr (get_ref s5 ptr)) (ref_size (get_ref s5 ptr)))))"
    if "write_ret E page2 = 0" "wt_rec_evict E s ptr flags = Done (ret, s')"
      "F_ISSET ?p3 WT_PAGE_REC_MASK = {WT_PAGE_REC_SPLIT} \<and> WT_PAGE_IS_ROOT ?p3"
      "pg_modify ?p3 = Some m \<and> rec_root_split E ?s4 (write_split m) = Done (r1, s5)"
    for ret s' m r1 s5
  proof -
    from that dirty have d: "rec_parent_dirty_update E ?s4 ptr ?p3 ?fl = Done (ret, s')" by simp
    from that(4) have rs: "rec_root_split E ?s4 (write_split m) = Some (Inr (r1, s5))" by simp
    from rec_root_split_errors [OF rs]
    have fr: "parent_slot s5 = parent_slot ?s3"
      "ref_state (root_page s5) = ref_state (root_page ?s3)"
      "r1 \<noteq> 0 \<longrightarrow>
         (\<exists>p. r1 = fst (page_set_modified E p) \<or> r1 = fst (rec_write E p)
              \<or> (pg_modify p \<noteq> None \<and> r1 = rec_track_discard E p))
         \<or> r1 = illegal_value E"
      by (simp_all add: s4)
    from dirty_update_split_root [OF _ _ _ _ d, of m r1 s5] that(3,4)
    have "(r1 \<noteq> 0 \<longrightarrow> ret = r1 \<and> s' = s5)
         \<and> (r1 = 0 \<longrightarrow>
              ret = discard_ret E ?D
              \<and> s' = freed (discard_done E ?D)
                       (put_ref s5 ptr
                          (Ref WT_REF_DISK (ref_page (get_ref s5 ptr))
                             (ref_addr (get_ref s5 ptr)) (ref_size (get_ref s5 ptr)))))"
      by simp
    with fr show ?thesis by blast
  qed
  show ?thesis
    apply (intro conjI)
    subgoal
      apply (rule impI, rule conjI)
       apply (intro allI impI)
       apply (erule (1) werr)
      apply (rule impI)
      apply (erule (1) wlocked)
      done
    subgoal by (rule impI, erule clean)
    subgoal by (rule impI, erule dirty)
    subgoal
      apply (rule impI, rule allI, rule allI, rule impI, intro conjI)
      subgoal for ret s' by (intro impI allI) (erule (3) replace)
      subgoal for ret s' by (intro impI allI) (erule (2) empty_root)
      subgoal for ret s' by (intro impI allI) (erule (3) split)
      subgoal for ret s' by (intro impI allI) (erule (3) split_root)
      done
    done
qed

theorem evict_error_paths_witness:
  "wt_rec_evict env_write_fails
     (session0 (Ref WT_REF_MEM (Some (parent_of_split WT_REF_MEM)) 7 8)) Parent_slot {}
   = Done (5, session0 (Ref WT_REF_MEM (Some (parent_of_split WT_REF_MEM)) 7 8)
                \<lparr>hazard_reads := 2\<rparr>)
   \<and> wt_rec_evict env_replace_fails
       (session0 (Ref WT_REF_MEM (Some (parent_of_split WT_REF_MEM)) 7 8)) Parent_slot {}
   = Done (5, session0 (Ref WT_REF_DISK None 66 4096)
                \<lparr>hazard_reads := 2, pages_out := [2], stat_cache_evict_modified := 1\<rparr>)
   \<and> discard_ret env_replace_fails
       (discard_order
          (Page 1 WT_PAGE_ROW_INT {WT_PAGE_REC_REPLACE} (Some 0) (Some (Modify 66 4096 None)) 0
             [Ref WT_REF_LOCKED (Some split2) 0 0]))
   = 5"
proof -
  let ?p = "parent_of_split WT_REF_MEM"
  let ?s = "session0 (Ref WT_REF_MEM (Some ?p) 7 8)"
  let ?p2 = "parent_of_split WT_REF_LOCKED"
  let ?s2 = "session0 (Ref WT_REF_LOCKED (Some ?p2) 7 8)\<lparr>hazard_reads := 2\<rparr>"
  let ?p3 = "Page 1 WT_PAGE_ROW_INT {WT_PAGE_REC_REPLACE} (Some 0) (Some (Modify 66 4096 None)) 0
               [Ref WT_REF_LOCKED (Some split2) 0 0]"
  let ?s' = "session0 (Ref WT_REF_DISK None 66 4096)
               \<lparr>hazard_reads := 2, pages_out := [2], stat_cache_evict_modified := 1\<rparr>"
  have page: "ref_page (get_ref ?s Parent_slot) = Some ?p"
    by (simp add: get_ref_def session0_def)
  have nm: "WT_PAGE_REC_SPLIT_MERGE \<notin> pg_flags ?p"
    by (simp add: parent_of_split_def)
  have rv: "rec_review env_write_fails (evict_force ?s Parent_slot ?p) Parent_slot
              (evict_flags ?p {}) = Done (0, ?s2)"
    by code_simp
  have p2: "ref_page (get_ref ?s2 Parent_slot) = Some ?p2"
    by (simp add: get_ref_def session0_def)
  have fl: "evict_flags ?p {} = {}"
    by (simp add: evict_flags_def F_ISSET_def parent_of_split_def)
  have wr: "write_ret env_write_fails ?p2 = 5" "written_page env_write_fails ?p2 = ?p2"
    by (simp_all add: write_ret_def written_page_def env_write_fails_def wt_rec_write_def
          at_address_def parent_of_split_def)
  have lb: "locked_below ?p2"
    by (simp add: locked_below_def parent_of_split_def split2_def)
  have rel: "release_below ?p2 = ?p"
    by (simp add: release_below_def parent_of_split_def split2_def set_refs_def)
  have ws: "written_session env_write_fails ?s2 Parent_slot ?p2 = ?s2"
    by (simp add: written_session_def wr put_ref_def get_ref_def set_page_def session0_def)
  have ne: "write_ret env_write_fails ?p2 \<noteq> 0" by (simp add: wr)
  have h: "WT_REC_SINGLE \<notin> evict_flags ?p {}
           \<and> locked_below (written_page env_write_fails ?p2)"
    by (simp add: fl wr lb)
  have cell: "put_ref ?s2 Parent_slot
                (Ref WT_REF_MEM (Some ?p) (ref_addr (get_ref ?s Parent_slot))
                   (ref_size (get_ref ?s Parent_slot)))
              = session0 (Ref WT_REF_MEM (Some ?p) 7 8)\<lparr>hazard_reads := 2\<rparr>"
    by (simp add: put_ref_def get_ref_def session0_def)
  from evict_error_paths [OF page nm rv p2, THEN conjunct1, THEN mp, OF ne, THEN conjunct2,
      THEN mp, OF h]
  have first: "wt_rec_evict env_write_fails ?s Parent_slot {}
                 = Done (5, session0 (Ref WT_REF_MEM (Some ?p) 7 8)\<lparr>hazard_reads := 2\<rparr>)"
    by (simp only: wr ws rel cell)
  have rv2: "rec_review env_replace_fails (evict_force ?s Parent_slot ?p) Parent_slot
              (evict_flags ?p {}) = Done (0, ?s2)"
    by code_simp
  have wr2: "write_ret env_replace_fails ?p2 = 0" "written_page env_replace_fails ?p2 = ?p3"
    by (simp_all add: write_ret_def written_page_def env_replace_fails_def wt_rec_write_def
          at_address_def parent_of_split_def)
  have m2: "F_ISSET (written_page env_replace_fails ?p2) WT_PAGE_REC_MASK
              = {WT_PAGE_REC_REPLACE}"
    "pg_modify (written_page env_replace_fails ?p2) = Some (Modify 66 4096 None)"
    by (simp_all add: wr2 F_ISSET_def WT_PAGE_REC_MASK_def)
  have ev2: "wt_rec_evict env_replace_fails ?s Parent_slot {} = Done (5, ?s')"
    by code_simp
  from evict_error_paths [OF page nm rv2 p2, THEN conjunct2, THEN conjunct2, THEN conjunct2,
      THEN mp, OF wr2(1), THEN spec, THEN spec, THEN mp, OF ev2, THEN conjunct1, THEN mp,
      OF m2(1), THEN spec, THEN mp, OF m2(2), THEN conjunct1]
  have second: "discard_ret env_replace_fails (discard_order ?p3) = 5"
    by (simp only: wr2)
  from first ev2 second show ?thesis by simp
qed

text \<open>
  C9 as stated fails on a discard-failure path. A clean leaf with tracked objects, no
  reader: the review locks the parent slot, the clean update sets it to DISK with a null
  page, the tracked-object discard fails with 5. \<open>__wt_rec_evict\<close> returns 5 with the
  slot in state DISK, not MEM, and the page is not freed.
\<close>

theorem evict_discard_error_keeps_disk:
  "wt_rec_evict env_discard_fails (session0 (Ref WT_REF_MEM (Some tracked8) 66 4096))
     Parent_slot {}
   = Done (5, session0 (Ref WT_REF_DISK None 66 4096)
                \<lparr>hazard_reads := 1, stat_cache_evict_unmodified := 1\<rparr>)"
  by code_simp


end
